theory Spec2Isabelle
  imports Main "HOL-Library.AList" "HOL-Library.Sublist"
begin

section \<open>Python strings\<close>

text \<open>
  A Python \<open>str\<close> is a sequence of Unicode code points, so it is modelled as a list of
  natural numbers (one per code point) rather than as a list of bytes.  \<open>lit\<close> turns an
  ASCII literal into such a list.
\<close>

type_synonym pychar = nat
type_synonym pystr = "nat list"

definition lit :: "string \<Rightarrow> pystr" where
  "lit s = map of_char s"

lemma lit_simps [simp]: "lit [] = []" "lit (c # cs) = of_char c # lit cs"
  by (simp_all add: lit_def)

lemma lit_inj: "lit a = lit b \<longleftrightarrow> a = b"
  by (simp add: lit_def inj_map_eq_map inj_on_def)

text \<open>\<open>str.isspace\<close> for one character: the code points Python treats as whitespace.\<close>

definition isspace :: "pychar \<Rightarrow> bool" where
  "isspace c \<longleftrightarrow>
     (9 \<le> c \<and> c \<le> 13) \<or> (28 \<le> c \<and> c \<le> 32) \<or> c = 133 \<or> c = 160 \<or> c = 5760 \<or>
     (8192 \<le> c \<and> c \<le> 8202) \<or> c = 8232 \<or> c = 8233 \<or> c = 8239 \<or> c = 8287 \<or> c = 12288"

text \<open>\<open>s.strip()\<close>: whitespace removed at both ends.\<close>

definition strip :: "pystr \<Rightarrow> pystr" where
  "strip s = rev (dropWhile isspace (rev (dropWhile isspace s)))"

text \<open>
  \<open>s.split(sep, 1)\<close> for a one-character separator: the part before the first
  separator and, when there is one, the part after it.
\<close>

definition split_once :: "pychar \<Rightarrow> pystr \<Rightarrow> pystr \<times> pystr option" where
  "split_once sep s =
     (if sep \<in> set s then (takeWhile (\<lambda>c. c \<noteq> sep) s, Some (tl (dropWhile (\<lambda>c. c \<noteq> sep) s)))
      else (s, None))"

text \<open>\<open>s.split(sep)\<close> for a one-character separator: never an empty list.\<close>

fun split_acc :: "pychar \<Rightarrow> pystr \<Rightarrow> pystr \<Rightarrow> pystr list" where
  "split_acc sep cur [] = [rev cur]"
| "split_acc sep cur (c # cs) =
     (if c = sep then rev cur # split_acc sep [] cs else split_acc sep (c # cur) cs)"

definition split :: "pychar \<Rightarrow> pystr \<Rightarrow> pystr list" where
  "split sep s = split_acc sep [] s"

text \<open>\<open>s.replace(c, new)\<close> for a one-character pattern.\<close>

definition replace_char :: "pychar \<Rightarrow> pystr \<Rightarrow> pystr \<Rightarrow> pystr" where
  "replace_char c new s = concat (map (\<lambda>x. if x = c then new else [x]) s)"

section \<open>Exceptions\<close>

text \<open>
  A raised exception is a value.  \<open>is_Exception\<close> records whether the exception object
  is an instance of \<open>Exception\<close>; \<open>KeyboardInterrupt\<close>, \<open>SystemExit\<close> and
  \<open>GeneratorExit\<close> derive from \<open>BaseException\<close> only, and an \<open>except Exception\<close>
  clause does not catch them.  \<open>message\<close> is \<open>str(e)\<close>.  This is the shape of
  the exceptions that the interpreter and the standard library raise; their \<open>str\<close>
  always returns.
\<close>

record py_exception =
  is_Exception :: bool
  message :: pystr

datatype 'a outcome = Returned 'a | Raised py_exception

section \<open>The tool registry (mcp_tools.py, MCPToolRegistry)\<close>

text \<open>
  Keyword arguments are a dictionary from parameter names to values; insertion order is
  kept, as in Python.

  A handler is any callable, so what it raises is any exception object: one that is an
  instance of \<open>Exception\<close> or not, and whose \<open>__str__\<close> returns a text or raises in
  its turn.  What it returns is any object; only \<open>str\<close> is applied to it, which again
  returns a text or raises.
\<close>

type_synonym kwargs = "(pystr \<times> pystr) list"

datatype 'e str_result = Str pystr | Str_raises 'e

datatype exception_object =
  Exception_object (instance_of_Exception: bool) (str_of: "exception_object str_result")

datatype 'a call_result = Returns 'a | Raises exception_object

record tool_descriptor =
  d_name :: pystr
  d_description :: pystr
  d_function :: "kwargs \<Rightarrow> exception_object str_result call_result"

type_synonym registry = "pystr \<rightharpoonup> tool_descriptor"


definition get_tool :: "registry \<Rightarrow> pystr \<Rightarrow> tool_descriptor option" where
  "get_tool tools name = tools name"

definition cross_mark :: pychar where "cross_mark = 0x274C"
definition apostrophe :: pychar where "apostrophe = 0x27"

text \<open>The two messages of \<open>execute_tool\<close>, with the Polish letters as code points.\<close>

definition not_found_message :: "pystr \<Rightarrow> pystr" where
  "not_found_message name =
     [cross_mark] @ lit '' Narz'' @ [0x119] @ lit ''dzie '' @ [apostrophe] @ name @ [apostrophe]
       @ lit '' nie istnieje''"

definition execution_error_message :: "pystr \<Rightarrow> pystr \<Rightarrow> pystr" where
  "execution_error_message name msg =
     [cross_mark] @ lit '' B'' @ [0x142, 0x105] @ lit ''d wykonania narz'' @ [0x119] @ lit ''dzia ''
       @ [apostrophe] @ name @ [apostrophe] @ lit '': '' @ msg"

text \<open>
  The signature is \<open>execute_tool(self, name, **kwargs)\<close>: a call whose keyword
  arguments contain the key \<open>self\<close> or \<open>name\<close> raises \<open>TypeError\<close> (naming the first
  such key) while the arguments are bound, before the body and its \<open>try\<close> are entered.
\<close>

definition multiple_values_error :: "pystr \<Rightarrow> exception_object" where
  "multiple_values_error param =
     Exception_object True
       (Str (lit ''MCPToolRegistry.execute_tool() got multiple values for argument ''
               @ [apostrophe] @ param @ [apostrophe]))"

text \<open>
  The clause \<open>except Exception as e\<close> with its \<open>return\<close>: an exception that is not an
  instance of \<open>Exception\<close> is not caught; for one that is, \<open>str(e)\<close> is evaluated
  inside the clause, and what that raises is not caught either.
\<close>

definition except_Exception :: "pystr \<Rightarrow> exception_object \<Rightarrow> pystr call_result" where
  "except_Exception name e =
     (if instance_of_Exception e then
        (case str_of e of
           Str msg \<Rightarrow> Returns (execution_error_message name msg)
         | Str_raises e' \<Rightarrow> Raises e')
      else Raises e)"

definition execute_tool :: "registry \<Rightarrow> pystr \<Rightarrow> kwargs \<Rightarrow> pystr call_result" where
  "execute_tool tools name kwargs =
     (case filter (\<lambda>k. k = lit ''self'' \<or> k = lit ''name'') (map fst kwargs) of
        k # ks \<Rightarrow> Raises (multiple_values_error k)
      | [] \<Rightarrow>
          (case get_tool tools name of
             None \<Rightarrow> Returns (not_found_message name)
           | Some tool \<Rightarrow>
               (case d_function tool kwargs of
                  Returns (Str result) \<Rightarrow> Returns result
                | Returns (Str_raises e) \<Rightarrow> except_Exception name e
                | Raises e \<Rightarrow> except_Exception name e)))"






section \<open>The call-syntax parser (mcp_tools.py, parse_tool_call_from_text)\<close>

text \<open>
  The pattern is \<^verbatim>\<open>\[TOOL:(\w+)\](.*?)\[/TOOL\]\<close>, searched with \<open>re.findall\<close> and
  \<open>re.DOTALL\<close>.  In a \<open>str\<close> pattern \<^verbatim>\<open>\w\<close> is a Unicode alphanumeric character or
  the underscore.  The ASCII part is written out; the Unicode database's table for the
  code points from 128 on is not part of the repository and is the parameter
  \<open>alnum\<close> of the parser.
\<close>

definition ascii_word :: "pychar \<Rightarrow> bool" where
  "ascii_word c \<longleftrightarrow> (48 \<le> c \<and> c \<le> 57) \<or> (65 \<le> c \<and> c \<le> 90) \<or> c = 95 \<or> (97 \<le> c \<and> c \<le> 122)"

definition is_word :: "(pychar \<Rightarrow> bool) \<Rightarrow> pychar \<Rightarrow> bool" where
  "is_word alnum c = (if c < 128 then ascii_word c else alnum c)"

text \<open>
  The Latin-1 block of that table (code points 128 to 255), for running the parser on
  concrete texts.
\<close>

definition latin1_alnum :: "pychar \<Rightarrow> bool" where
  "latin1_alnum c \<longleftrightarrow> c = 0xAA \<or> c = 0xB2 \<or> c = 0xB3 \<or> c = 0xB5 \<or> c = 0xB9 \<or> c = 0xBA \<or>
     (0xBC \<le> c \<and> c \<le> 0xBE) \<or> (0xC0 \<le> c \<and> c \<le> 0xD6) \<or> (0xD8 \<le> c \<and> c \<le> 0xF6) \<or>
     (0xF8 \<le> c \<and> c \<le> 0xFF)"

definition opener :: pystr where "opener = lit ''[TOOL:''"
definition closer :: pystr where "closer = lit ''[/TOOL]''"
definition rbracket :: pychar where "rbracket = 0x5D"
definition equals_sign :: pychar where "equals_sign = 0x3D"
definition bar :: pychar where "bar = 0x7C"

text \<open>Matching a literal at the head of the text: the rest of the text, if it matches.\<close>

fun match_literal :: "pystr \<Rightarrow> pystr \<Rightarrow> pystr option" where
  "match_literal [] text = Some text"
| "match_literal (p # ps) [] = None"
| "match_literal (p # ps) (c # cs) = (if p = c then match_literal ps cs else None)"

text \<open>
  \<^verbatim>\<open>(.*?)\[/TOOL\]\<close>: the lazy group grows one character at a time (any character, also a
  newline, under \<open>DOTALL\<close>) until the closing literal matches.
\<close>

fun match_lazy :: "pystr \<Rightarrow> (pystr \<times> pystr) option" where
  "match_lazy [] = None"
| "match_lazy (c # cs) =
     (case match_literal closer (c # cs) of
        Some rest \<Rightarrow> Some ([], rest)
      | None \<Rightarrow> (case match_lazy cs of
                   None \<Rightarrow> None
                 | Some (args_text, rest) \<Rightarrow> Some (c # args_text, rest)))"

text \<open>
  One attempt of the whole pattern at the head of the text.  \<^verbatim>\<open>\w+\<close> is greedy; the
  character after it must be \<open>]\<close>, which is not a word character, so giving characters
  back can never help and only the longest run has to be tried.
\<close>

definition match_at :: "(pychar \<Rightarrow> bool) \<Rightarrow> pystr \<Rightarrow> (pystr \<times> pystr \<times> pystr) option" where
  "match_at alnum text =
     (case match_literal opener text of
        None \<Rightarrow> None
      | Some after_opener \<Rightarrow>
          (let tool_name = takeWhile (is_word alnum) after_opener in
           if tool_name = [] then None
           else case dropWhile (is_word alnum) after_opener of
                  [] \<Rightarrow> None
                | c # after_bracket \<Rightarrow>
                    if c \<noteq> rbracket then None
                    else case match_lazy after_bracket of
                           None \<Rightarrow> None
                         | Some (args_text, rest) \<Rightarrow> Some (tool_name, args_text, rest)))"

lemma match_literal_length:
  "match_literal p text = Some rest \<Longrightarrow> length text = length p + length rest"
  by (induction p "text" rule: match_literal.induct) (auto split: if_splits)

lemma match_lazy_length: "match_lazy text = Some (a, rest) \<Longrightarrow> length rest < length text"
proof (induction "text" arbitrary: a)
  case Nil
  then show ?case by simp
next
  case (Cons c cs)
  show ?case
  proof (cases "match_literal closer (c # cs)")
    case (Some r)
    with Cons.prems have "r = rest" by simp
    moreover have "0 < length closer" by (simp add: closer_def)
    ultimately show ?thesis using Some match_literal_length [of closer "c # cs" r] by simp
  next
    case None
    with Cons.prems obtain a' where "match_lazy cs = Some (a', rest)"
      by (auto split: option.splits)
    then have "length rest < length cs" by (rule Cons.IH)
    then show ?thesis by simp
  qed
qed

lemma match_at_Some:
  "match_at alnum text = Some (n, a, rest) \<longleftrightarrow>
     (\<exists>r1 r3. match_literal opener text = Some r1 \<and> n = takeWhile (is_word alnum) r1 \<and> n \<noteq> [] \<and>
        dropWhile (is_word alnum) r1 = rbracket # r3 \<and> match_lazy r3 = Some (a, rest))"
proof (cases "match_literal opener text")
  case None
  then show ?thesis by (simp add: match_at_def)
next
  case (Some r1)
  show ?thesis
  proof (cases "dropWhile (is_word alnum) r1")
    case Nil
    with Some show ?thesis by (simp add: match_at_def Let_def del: dropWhile_eq_Nil_conv)
  next
    case (Cons c r3)
    with Some show ?thesis
      by (cases "match_lazy r3") (auto simp: match_at_def Let_def)
  qed
qed

lemma match_at_length:
  assumes "match_at alnum text = Some (n, a, rest)"
  shows "length rest < length text"
proof -
  from assms obtain r1 r3 where r1: "match_literal opener text = Some r1"
    and r3: "dropWhile (is_word alnum) r1 = rbracket # r3" and lz: "match_lazy r3 = Some (a, rest)"
    unfolding match_at_Some by blast
  have "length (dropWhile (is_word alnum) r1) \<le> length r1"
    by (rule length_dropWhile_le)
  with r3 have "length r3 < length r1" by simp
  moreover from r1 have "length r1 \<le> length text" by (auto dest: match_literal_length)
  moreover from lz have "length rest < length r3" by (rule match_lazy_length)
  ultimately show ?thesis by simp
qed

text \<open>
  \<open>re.findall\<close>: the text is scanned from the left; after a match the scan goes on
  behind it, otherwise at the next character.  (The pattern never matches the empty
  string.)  The result is the list of the two groups of each match.
\<close>

function findall :: "(pychar \<Rightarrow> bool) \<Rightarrow> pystr \<Rightarrow> (pystr \<times> pystr) list" where
  "findall alnum [] = []"
| "findall alnum (c # cs) =
     (case match_at alnum (c # cs) of
        None \<Rightarrow> findall alnum cs
      | Some (tool_name, args_text, rest) \<Rightarrow> (tool_name, args_text) # findall alnum rest)"
  by pat_completeness auto
termination
  by (relation "measure (\<lambda>(alnum, text). length text)") (auto dest: match_at_length)

record tool_call =
  tool :: pystr
  args :: kwargs

text \<open>
  The body of \<open>for pair in args_text.split("|")\<close>: \<open>kwargs[key.strip()] = value.strip()\<close>
  for a piece with an \<open>=\<close>; a dictionary assignment replaces the value of a key that is
  already there and appends a new key otherwise.
\<close>

definition assign_pair :: "pystr \<Rightarrow> kwargs \<Rightarrow> kwargs" where
  "assign_pair pair kwargs =
     (if equals_sign \<in> set pair then
        (case split_once equals_sign pair of
           (key, Some value) \<Rightarrow> AList.update (strip key) (strip value) kwargs
         | (key, None) \<Rightarrow> kwargs)
      else kwargs)"

definition query_tools :: "pystr list" where
  "query_tools = [lit ''web_search'', lit ''calculator'', lit ''count_words'', lit ''tavily_search'',
                  lit ''tavily_scrape'', lit ''tavily_search_scrape'', lit ''deep_research'']"

definition parse_arguments :: "pystr \<Rightarrow> pystr \<Rightarrow> kwargs" where
  "parse_arguments tool_name args_text =
     (if equals_sign \<in> set args_text then fold assign_pair (split bar args_text) []
      else if tool_name = lit ''read_file'' then [(lit ''path'', strip args_text)]
      else if tool_name = lit ''write_file'' then
        (case split_once bar args_text of
           (part0, part1) \<Rightarrow>
             [(lit ''path'', strip part0),
              (lit ''content'', case part1 of Some p \<Rightarrow> strip p | None \<Rightarrow> [])])
      else if tool_name \<in> set query_tools then
        (if tool_name = lit ''tavily_scrape'' then [(lit ''url'', strip args_text)]
         else [(lit ''query'', strip args_text)])
      else [(lit ''query'', strip args_text)])"

definition parse_tool_call_from_text :: "(pychar \<Rightarrow> bool) \<Rightarrow> pystr \<Rightarrow> tool_call list" where
  "parse_tool_call_from_text alnum text =
     map (\<lambda>(tool_name, args_text). \<lparr>tool = tool_name, args = parse_arguments tool_name args_text\<rparr>)
       (findall alnum text)"

text \<open>The entry appended for one match.\<close>

definition call_of :: "pystr \<times> pystr \<Rightarrow> tool_call" where
  "call_of m = \<lparr>tool = fst m, args = parse_arguments (fst m) (snd m)\<rparr>"

text \<open>A text with two calls, and some text before them.\<close>

definition two_calls_text :: pystr where
  "two_calls_text = lit ''x[TOOL:a]1[/TOOL][TOOL:b]2[/TOOL]''"

text \<open>
  The grammar in the words of the specification: a call marker is the text
  \<open>[TOOL:name]args[/TOOL]\<close>, its name a non-empty token of word characters and its
  argument segment the shortest one, so that no closing tag begins inside it.  The
  occurrences of markers in a text are found from the left and do not overlap.
\<close>

definition marker :: "pystr \<Rightarrow> pystr \<Rightarrow> pystr" where
  "marker name args_text = opener @ name @ [rbracket] @ args_text @ closer"

definition word_token :: "(pychar \<Rightarrow> bool) \<Rightarrow> pystr \<Rightarrow> bool" where
  "word_token alnum name \<longleftrightarrow> name \<noteq> [] \<and> (\<forall>c \<in> set name. is_word alnum c)"

definition shortest_args :: "pystr \<Rightarrow> bool" where
  "shortest_args a \<longleftrightarrow> (\<forall>k < length a. \<not> prefix closer (drop k (a @ closer)))"

definition occurrence_at :: "(pychar \<Rightarrow> bool) \<Rightarrow> pystr \<Rightarrow> pystr \<Rightarrow> pystr \<Rightarrow> pystr \<Rightarrow> bool" where
  "occurrence_at alnum text name a rest \<longleftrightarrow>
     text = marker name a @ rest \<and> word_token alnum name \<and> shortest_args a"

inductive occurrences :: "(pychar \<Rightarrow> bool) \<Rightarrow> pystr \<Rightarrow> (pystr \<times> pystr) list \<Rightarrow> bool"
  for alnum :: "pychar \<Rightarrow> bool" where
  occ_end: "occurrences alnum [] []"
| occ_here: "occurrence_at alnum (c # cs) name a rest \<Longrightarrow> occurrences alnum rest ms \<Longrightarrow>
     occurrences alnum (c # cs) ((name, a) # ms)"
| occ_skip: "(\<forall>name a rest. \<not> occurrence_at alnum (c # cs) name a rest) \<Longrightarrow> occurrences alnum cs ms \<Longrightarrow>
     occurrences alnum (c # cs) ms"

text \<open>
  The positional fallback as the specification words it: for \<open>write_file\<close> the segment
  is split once on the first \<open>|\<close> into path and content.
\<close>

definition positional_args_as_stated :: "pystr \<Rightarrow> pystr \<Rightarrow> kwargs" where
  "positional_args_as_stated name a =
     (if name = lit ''read_file'' then [(lit ''path'', strip a)]
      else if name = lit ''write_file'' then
        [(lit ''path'', fst (split_once bar a)),
         (lit ''content'', case snd (split_once bar a) of Some p \<Rightarrow> p | None \<Rightarrow> [])]
      else if name = lit ''tavily_scrape'' then [(lit ''url'', strip a)]
      else [(lit ''query'', strip a)])"

text \<open>The same table with both parts of the \<open>write_file\<close> segment trimmed.\<close>

definition positional_args :: "pystr \<Rightarrow> pystr \<Rightarrow> kwargs" where
  "positional_args name a =
     (if name = lit ''read_file'' then [(lit ''path'', strip a)]
      else if name = lit ''write_file'' then
        [(lit ''path'', strip (fst (split_once bar a))),
         (lit ''content'', case snd (split_once bar a) of Some p \<Rightarrow> strip p | None \<Rightarrow> [])]
      else if name = lit ''tavily_scrape'' then [(lit ''url'', strip a)]
      else [(lit ''query'', strip a)])"

text \<open>
  The key=value mode in the words of the specification: the pieces of the segment are
  what joining them with \<open>|\<close> gives back, and a piece with an \<open>=\<close> is split on its
  first \<open>=\<close> into a key and a value, both trimmed.
\<close>

fun join :: "pychar \<Rightarrow> pystr list \<Rightarrow> pystr" where
  "join sep [] = []"
| "join sep [p] = p"
| "join sep (p # q # ps) = p @ sep # join sep (q # ps)"

definition key_value :: "pystr \<Rightarrow> pystr \<times> pystr" where
  "key_value piece =
     (strip (takeWhile (\<lambda>c. c \<noteq> equals_sign) piece),
      strip (tl (dropWhile (\<lambda>c. c \<noteq> equals_sign) piece)))"

text \<open>The example call of the specification.\<close>

definition key_value_text :: pystr where
  "key_value_text = lit ''[TOOL:write_file]path=a.txt|content=hi[/TOOL]''"

section \<open>Dates and times (the datetime module)\<close>

text \<open>
  A \<open>datetime\<close> is its wall-clock reading in microseconds since 0001-01-01T00:00:00
  together with its UTC offset, which a naive value (such as \<open>datetime.now()\<close>) does
  not have.  The displayable readings end with 9999-12-31T23:59:59.999999.
\<close>

record pydatetime =
  micros :: int
  utcoffset :: "int option"

definition day_micros :: int where "day_micros = 86400000000"
definition max_micros :: int where "max_micros = 315537897599999999"

fun dec_digits :: "nat \<Rightarrow> nat \<Rightarrow> pystr" where
  "dec_digits 0 n = []"
| "dec_digits (Suc k) n = dec_digits k (n div 10) @ [48 + n mod 10]"

function str_nat :: "nat \<Rightarrow> pystr" where
  "str_nat n = (if n < 10 then [48 + n] else str_nat (n div 10) @ [48 + n mod 10])"
  by pat_completeness auto
termination
  by (relation "measure (\<lambda>n. n)") auto

declare str_nat.simps [simp del]

definition str_int :: "int \<Rightarrow> pystr" where
  "str_int i = (if i < 0 then 0x2D # str_nat (nat (- i)) else str_nat (nat i))"

text \<open>The proleptic Gregorian date (year, month, day) of a day number, day 0 being 0001-01-01.\<close>

definition civil_from_days :: "int \<Rightarrow> int \<times> int \<times> int" where
  "civil_from_days days =
     (let z = days + 306;
          era = z div 146097;
          doe = z - era * 146097;
          yoe = (doe - doe div 1460 + doe div 36524 - doe div 146096) div 365;
          doy = doe - (365 * yoe + yoe div 4 - yoe div 100);
          mp = (5 * doy + 2) div 153;
          d = doy - (153 * mp + 2) div 5 + 1;
          m = (if mp < 10 then mp + 3 else mp - 9);
          y = yoe + era * 400 + (if m \<le> 2 then 1 else 0)
      in (y, m, d))"

text \<open>\<open>dt.isoformat()\<close> of a naive \<open>datetime\<close>; the fraction is printed unless it is zero.\<close>

definition isoformat :: "int \<Rightarrow> pystr" where
  "isoformat t =
     (let (y, m, d) = civil_from_days (t div day_micros);
          r = t mod day_micros;
          s = r div 1000000;
          us = r mod 1000000
      in dec_digits 4 (nat y) @ [0x2D] @ dec_digits 2 (nat m) @ [0x2D] @ dec_digits 2 (nat d) @ [0x54]
           @ dec_digits 2 (nat (s div 3600)) @ [0x3A] @ dec_digits 2 (nat (s div 60 mod 60)) @ [0x3A]
           @ dec_digits 2 (nat (s mod 60))
           @ (if us = 0 then [] else 0x2E # dec_digits 6 (nat us)))"

text \<open>
  \<open>datetime.now() - timedelta(days=n)\<close>: the constructor refuses more than 999999999
  days, and the subtraction refuses a result outside the displayable range; both raise
  \<open>OverflowError\<close>.
\<close>

definition overflow_error :: "pystr \<Rightarrow> py_exception" where
  "overflow_error msg = \<lparr>is_Exception = True, message = msg\<rparr>"

definition minus_days :: "int \<Rightarrow> int \<Rightarrow> int outcome" where
  "minus_days t n =
     (if 999999999 < \<bar>n\<bar> then
        Raised (overflow_error (lit ''days='' @ str_int n @ lit ''; must have magnitude <= 999999999''))
      else if t - n * day_micros < 0 \<or> max_micros < t - n * day_micros then
        Raised (overflow_error (lit ''date value out of range''))
      else Returned (t - n * day_micros))"

section \<open>The research client (research_tools.py, ResearchTools)\<close>

text \<open>
  The value under the key \<open>url\<close> of a result decoded from JSON: a string, a non-empty
  array or object (a \<open>list\<close> or \<open>dict\<close>, which cannot be hashed), or nothing that
  counts as true (the key is missing, or its value is \<open>null\<close>, false, zero or empty).
\<close>

datatype json_url = NoUrl | UrlText pystr | UrlArray | UrlObject

text \<open>
  A search result as the upstream API sends it: a JSON object whose other fields are
  strings or missing (\<open>None\<close>); the score, a float, is kept as its decimal text.
\<close>

record search_result =
  url :: json_url
  title :: "pystr option"
  content :: "pystr option"
  published_date :: "pystr option"
  score :: "pystr option"

text \<open>The JSON body of the POST and what comes back.\<close>

record search_request =
  r_query :: pystr
  r_max_age_days :: int
  r_num_results :: int
  r_search_depth :: pystr
  r_include_answer :: bool

text \<open>
  The decoded body of a response: the \<open>results\<close> and \<open>answer\<close> keys, each possibly
  missing.  \<open>response.json()\<close> raises when the body is not such an object; then only the
  message of the exception is kept.
\<close>

record search_body =
  b_results :: "search_result list option"
  b_answer :: "pystr option"

datatype http_outcome =
  ConnectionFailed pystr
| HttpResponse int pystr "pystr + search_body"

text \<open>
  What a call finds around it: the configured key, the clock (\<open>datetime.now()\<close>, a
  naive reading, later than the first week of year 1), the elapsed time that
  \<open>response_time_ms\<close> reports (in hundredths of a millisecond) and the upstream service.
\<close>

record environment =
  tavily_api_key :: pystr
  now :: int
  elapsed :: int
  post :: "search_request \<Rightarrow> http_outcome"

text \<open>
  The dictionary a search returns: success-shaped or failure-shaped.  \<open>mock\<close> and
  \<open>message\<close> are keys of the simulated response only, \<open>answer\<close> of the real one.
\<close>

record search_success =
  s_query :: pystr
  s_results :: "search_result list"
  total_found :: nat
  filtered_by_date :: bool
  response_time_ms :: int
  answer :: "pystr option"
  mock :: bool
  s_message :: "pystr option"

datatype search_response = Success search_success | Failure pystr pystr

fun success :: "search_response \<Rightarrow> bool" where
  "success (Success r) = True"
| "success (Failure e m) = False"

fun results_of :: "search_response \<Rightarrow> search_result list" where
  "results_of (Success r) = s_results r"
| "results_of (Failure e m) = []"

text \<open>\<open>xs[:n]\<close>: a negative bound counts from the end.\<close>

definition slice_to :: "int \<Rightarrow> 'a list \<Rightarrow> 'a list" where
  "slice_to n xs = (if 0 \<le> n then take (nat n) xs else take (length xs - nat (- n)) xs)"

definition mock_search :: "environment \<Rightarrow> pystr \<Rightarrow> int \<Rightarrow> search_response" where
  "mock_search env query max_age_days =
     Success \<lparr>s_query = query,
       s_results =
         [\<lparr>url = UrlText (lit ''https://example.com/article-'' @ replace_char 0x20 (lit ''-'') query),
           title = Some (lit ''Wynik 1 dla: '' @ query),
           content = Some (lit ''Symulowany wynik wyszukiwania dla '' @ [apostrophe] @ query @ [apostrophe]
                       @ lit ''. Informacja nie starsza ni'' @ [0x17C] @ lit '' '' @ str_int max_age_days
                       @ lit '' dni.''),
           published_date = Some (isoformat (now env - 7 * day_micros)),
           score = Some (lit ''0.95'')\<rparr>],
       total_found = 1,
       filtered_by_date = False,
       response_time_ms = 5000,
       answer = None,
       mock = True,
       s_message = Some (lit ''Brak TAVILY_API_KEY - u'' @ [0x17C] @ lit ''ywam symulowanych wynik'' @ [0xF3] @ lit ''w'')\<rparr>"

text \<open>
  The body of the filter loop for one result.  \<open>fromisoformat\<close> is the library's parser
  (\<open>None\<close> where it raises \<open>ValueError\<close>); the cutoff is naive, and comparing it with a
  value that has a UTC offset raises \<open>TypeError\<close>.  Both exceptions end in the bare
  \<open>except\<close>, which keeps the result.
\<close>

definition keeps :: "(pystr \<Rightarrow> pydatetime option) \<Rightarrow> int \<Rightarrow> search_result \<Rightarrow> bool" where
  "keeps fromisoformat cutoff_date result =
     (case published_date result of
        None \<Rightarrow> True
      | Some pub_date \<Rightarrow>
          if pub_date = [] then True
          else (case fromisoformat (replace_char 0x5A (lit ''+00:00'') pub_date) of
                  None \<Rightarrow> True
                | Some result_date \<Rightarrow>
                    (case utcoffset result_date of
                       Some offset \<Rightarrow> True
                     | None \<Rightarrow> cutoff_date \<le> micros result_date)))"

definition connection_message :: pystr where
  "connection_message = lit ''B'' @ [0x142, 0x105] @ lit ''d po'' @ [0x142, 0x105] @ lit ''czenia z Tavily API''"

text \<open>
  \<open>search\<close> returns its dictionary; the list beside it records the requests sent to the
  upstream service during the call.
\<close>

definition search ::
    "(pystr \<Rightarrow> pydatetime option) \<Rightarrow> environment \<Rightarrow> pystr \<Rightarrow> int \<Rightarrow> int \<Rightarrow> pystr
       \<Rightarrow> search_response \<times> search_request list" where
  "search fromisoformat env query max_age_days num_results search_depth =
     (if tavily_api_key env = [] then (mock_search env query max_age_days, [])
      else
        let request = \<lparr>r_query = query, r_max_age_days = max_age_days, r_num_results = num_results,
                         r_search_depth = search_depth, r_include_answer = True\<rparr>
        in (case post env request of
              ConnectionFailed e \<Rightarrow> Failure e connection_message
            | HttpResponse status_code body_text json \<Rightarrow>
                if status_code = 200 then
                  (case json of
                     Inl e \<Rightarrow> Failure e connection_message
                   | Inr data \<Rightarrow>
                       (case minus_days (now env) max_age_days of
                          Raised e \<Rightarrow> Failure (message e) connection_message
                        | Returned cutoff_date \<Rightarrow>
                            let raw = (case b_results data of None \<Rightarrow> [] | Some rs \<Rightarrow> rs);
                                filtered_results = filter (keeps fromisoformat cutoff_date) raw
                            in Success \<lparr>s_query = query,
                                 s_results = slice_to num_results filtered_results,
                                 total_found = length filtered_results,
                                 filtered_by_date = (length filtered_results < length raw),
                                 response_time_ms = elapsed env,
                                 answer = Some (case b_answer data of None \<Rightarrow> [] | Some a \<Rightarrow> a),
                                 mock = False,
                                 s_message = None\<rparr>))
                else Failure (lit ''API error: '' @ str_int status_code) body_text,
            [request]))"

text \<open>
  The deduplication loop of \<open>deep_research\<close>, with \<open>seen_urls\<close> and \<open>unique_results\<close>.
  \<open>seen_urls\<close> is a set: the test \<open>url not in seen_urls\<close> hashes the URL and raises
  \<open>TypeError\<close> when it is a list or a dict.
\<close>

definition unhashable_error :: "pystr \<Rightarrow> py_exception" where
  "unhashable_error type_name =
     \<lparr>is_Exception = True,
      message = lit ''unhashable type: '' @ [apostrophe] @ type_name @ [apostrophe]\<rparr>"

fun unique_loop ::
    "search_result list \<Rightarrow> pystr list \<Rightarrow> search_result list \<Rightarrow> search_result list outcome" where
  "unique_loop [] seen_urls unique_results = Returned unique_results"
| "unique_loop (r # rs) seen_urls unique_results =
     (case url r of
        NoUrl \<Rightarrow> unique_loop rs seen_urls unique_results
      | UrlText u \<Rightarrow>
          if u \<noteq> [] \<and> u \<notin> set seen_urls
          then unique_loop rs (u # seen_urls) (unique_results @ [r])
          else unique_loop rs seen_urls unique_results
      | UrlArray \<Rightarrow> Raised (unhashable_error (lit ''list''))
      | UrlObject \<Rightarrow> Raised (unhashable_error (lit ''dict'')))"

record deep_response =
  d_success :: bool
  d_query :: pystr
  d_results :: "search_result list"
  total_unique :: nat
  sources_checked :: "pystr list"
  timestamp :: pystr

text \<open>
  \<open>deep_research\<close> has no \<open>try\<close>: it returns its dictionary or raises what the loop
  raises.  The list beside the outcome records the requests sent during the call.
\<close>

definition deep_research ::
    "(pystr \<Rightarrow> pydatetime option) \<Rightarrow> environment \<Rightarrow> pystr \<Rightarrow> pystr list option \<Rightarrow> int
       \<Rightarrow> deep_response outcome \<times> search_request list" where
  "deep_research fromisoformat env query sources max_age_days =
     (let sources' = (case sources of None \<Rightarrow> [lit ''tavily''] | Some s \<Rightarrow> s);
          (all_results, requests) =
            (if lit ''tavily'' \<in> set sources' then
               (case search fromisoformat env query max_age_days 10 (lit ''advanced'') of
                  (tavily_results, sent) \<Rightarrow>
                    (if success tavily_results then results_of tavily_results else [], sent))
             else ([], []))
      in (case unique_loop all_results [] [] of
            Raised e \<Rightarrow> Raised e
          | Returned unique_results \<Rightarrow>
              Returned \<lparr>d_success = True, d_query = query, d_results = take 15 unique_results,
                total_unique = length unique_results, sources_checked = sources',
                timestamp = isoformat (now env)\<rparr>,
          requests))"

text \<open>
  What \<open>fromisoformat\<close> returns on the two date strings of the examples below:
  midnight of 2000-01-01, with the UTC offset and without it.
\<close>

definition fromisoformat_sample :: "pystr \<Rightarrow> pydatetime option" where
  "fromisoformat_sample s =
     (if s = lit ''2000-01-01T00:00:00+00:00'' then Some \<lparr>micros = 63082281600000000, utcoffset = Some 0\<rparr>
      else if s = lit ''2000-01-01T00:00:00'' then Some \<lparr>micros = 63082281600000000, utcoffset = None\<rparr>
      else None)"

text \<open>An environment without a credential, at a given reading of the clock.\<close>

definition offline_env :: "int \<Rightarrow> environment" where
  "offline_env t = \<lparr>tavily_api_key = [], now = t, elapsed = 0, post = (\<lambda>request. ConnectionFailed [])\<rparr>"

text \<open>
  An environment with a credential on 2026-11-03T15:35:00 whose upstream service answers
  200 with the given results.
\<close>

definition online_env :: "search_result list \<Rightarrow> environment" where
  "online_env rs =
     \<lparr>tavily_api_key = lit ''key'', now = 63929316900000000, elapsed = 1234,
      post = (\<lambda>request. HttpResponse 200 [] (Inr \<lparr>b_results = Some rs, b_answer = None\<rparr>))\<rparr>"

definition unreachable_env :: environment where
  "unreachable_env =
     \<lparr>tavily_api_key = lit ''key'', now = 63929316900000000, elapsed = 0,
      post = (\<lambda>request. ConnectionFailed (lit ''timed out''))\<rparr>"

definition dated_result :: "pystr \<Rightarrow> pystr \<Rightarrow> search_result" where
  "dated_result u d = \<lparr>url = UrlText u, title = None, content = None, published_date = Some d, score = None\<rparr>"



definition unhashable :: "json_url \<Rightarrow> bool" where
  "unhashable v \<longleftrightarrow> v = UrlArray \<or> v = UrlObject"

text \<open>The results that the deduplication loop appends, given the URLs seen so far.\<close>

fun firsts :: "pystr list \<Rightarrow> search_result list \<Rightarrow> search_result list" where
  "firsts seen [] = []"
| "firsts seen (r # rs) =
     (case url r of
        UrlText u \<Rightarrow> if u \<noteq> [] \<and> u \<notin> set seen then r # firsts (u # seen) rs else firsts seen rs
      | _ \<Rightarrow> firsts seen rs)"

text \<open>An upstream result whose URL is an array of strings.\<close>

definition array_url_result :: search_result where
  "array_url_result = \<lparr>url = UrlArray, title = None, content = None, published_date = None, score = None\<rparr>"


text \<open>What \<open>deep_research\<close> returns on 2026-11-03T15:35:00 when no result is found.\<close>

definition empty_response :: deep_response where
  "empty_response =
     \<lparr>d_success = True, d_query = lit ''x'', d_results = [], total_unique = 0,
      sources_checked = [lit ''tavily''], timestamp = lit ''2026-11-03T15:35:00''\<rparr>"


text \<open>
  A result published on 2000-01-01, its date written with the \<open>Z\<close> suffix that the
  filter rewrites to \<open>+00:00\<close>, and the same result with the date written without it.
\<close>

definition stale_utc :: search_result where
  "stale_utc = dated_result (lit ''https://example.com/old'') (lit ''2000-01-01T00:00:00Z'')"

definition stale_naive :: search_result where
  "stale_naive = dated_result (lit ''https://example.com/old'') (lit ''2000-01-01T00:00:00'')"

section \<open>The file and calculator tools (mcp_tools.py)\<close>

text \<open>
  \<open>os.path\<close> is \<open>posixpath\<close> on a POSIX system and \<open>ntpath\<close> on Windows, and the
  encoding of file names differs too.  What \<open>_write_file\<close> uses of the platform is a
  parameter: \<open>os.path.basename\<close>, \<open>os.path.join\<close>, the directories above a path (those
  that \<open>os.makedirs\<close> finds by splitting it) and whether a name can be encoded.
\<close>

record platform =
  os_basename :: "pystr \<Rightarrow> pystr"
  os_join :: "pystr \<Rightarrow> pystr \<Rightarrow> pystr"
  os_parents :: "pystr \<Rightarrow> pystr list"
  os_fsencodable :: "pystr \<Rightarrow> bool"

text \<open>
  The POSIX platform.  \<open>posixpath.basename\<close> is what follows the last slash;
  \<open>posixpath.join\<close> drops its first argument when the second is absolute and otherwise
  puts one slash between the two; the directories above a path are its parts before each
  of its slashes.  File names are encoded in UTF-8 with \<open>surrogateescape\<close>: of the
  surrogate code points only U+DC80 to U+DCFF can be encoded.
\<close>

definition slash :: pychar where "slash = 0x2F"

definition basename :: "pystr \<Rightarrow> pystr" where
  "basename p = rev (takeWhile (\<lambda>c. c \<noteq> slash) (rev p))"

definition join_path :: "pystr \<Rightarrow> pystr \<Rightarrow> pystr" where
  "join_path a b =
     (if b \<noteq> [] \<and> hd b = slash then b
      else if a = [] \<or> last a = slash then a @ b
      else a @ slash # b)"

definition parents :: "pystr \<Rightarrow> pystr list" where
  "parents d = map (\<lambda>i. take i d) (filter (\<lambda>i. d ! i = slash) [1..<length d])"

definition surrogate :: "pychar \<Rightarrow> bool" where
  "surrogate c \<longleftrightarrow> 0xD800 \<le> c \<and> c \<le> 0xDFFF"

definition fsencodable :: "pystr \<Rightarrow> bool" where
  "fsencodable p \<longleftrightarrow> list_all (\<lambda>c. surrogate c \<longrightarrow> 0xDC80 \<le> c \<and> c \<le> 0xDCFF) p"

definition posix :: platform where
  "posix = \<lparr>os_basename = basename, os_join = join_path, os_parents = parents,
            os_fsencodable = fsencodable\<rparr>"

text \<open>
  Windows, at the arguments that the example below reaches and nowhere else:
  \<open>ntpath.basename('x/C:evil.txt')\<close> is \<open>'C:evil.txt'\<close> (the path has no drive of its
  own, and the last component is what follows the last separator),
  \<open>ntpath.basename('C:evil.txt')\<close> is \<open>'evil.txt'\<close>, and
  \<open>ntpath.join('./mcp_workspace', 'C:evil.txt')\<close> is \<open>'C:evil.txt'\<close> (a second argument
  with a drive of its own replaces the first).  File names are UTF-16 there, and every
  name of the example can be encoded.
\<close>

definition windows_sample :: platform where
  "windows_sample =
     \<lparr>os_basename = (\<lambda>p. if p = lit ''x/C:evil.txt'' then lit ''C:evil.txt''
                         else if p = lit ''C:evil.txt'' then lit ''evil.txt'' else []),
      os_join = (\<lambda>a b. if a = lit ''./mcp_workspace'' \<and> b = lit ''C:evil.txt'' then lit ''C:evil.txt''
                        else []),
      os_parents = (\<lambda>d. if d = lit ''./mcp_workspace'' then [lit ''.''] else []),
      os_fsencodable = (\<lambda>p. True)\<rparr>"

text \<open>
  The file system: the contents of each file by path, the directories, the symbolic links
  (by path, with the path each leads to) and the operations the operating system refuses
  (permissions, a read-only or full disk, \<dots>) with the text of the error it raises.
  Paths are compared as strings.
\<close>

record filesystem =
  files :: "pystr \<rightharpoonup> pystr"
  dirs :: "pystr set"
  links :: "pystr \<rightharpoonup> pystr"
  refused :: "pystr \<Rightarrow> pystr option"

definition os_error :: "pystr \<Rightarrow> py_exception" where
  "os_error msg = \<lparr>is_Exception = True, message = msg\<rparr>"

text \<open>
  Opening a path follows symbolic links, at most \<open>n\<close> of them in a row; \<open>None\<close> is the
  error \<open>Too many levels of symbolic links\<close>.
\<close>

fun follow :: "nat \<Rightarrow> (pystr \<rightharpoonup> pystr) \<Rightarrow> pystr \<Rightarrow> pystr option" where
  "follow 0 ls p = (case ls p of None \<Rightarrow> Some p | Some t \<Rightarrow> None)"
| "follow (Suc n) ls p = (case ls p of None \<Rightarrow> Some p | Some t \<Rightarrow> follow n ls t)"

definition max_links :: nat where "max_links = 40"

text \<open>
  \<open>os.makedirs(d, exist_ok=True)\<close>: the directory is there afterwards, and so are
  the directories above it, unless the name is empty, has a NUL character, cannot be
  encoded, is refused, or is that of a file, or a file is in the way above it.
\<close>

definition makedirs :: "platform \<Rightarrow> filesystem \<Rightarrow> pystr \<Rightarrow> filesystem outcome" where
  "makedirs pf fs d =
     (if d = [] then Raised (os_error (lit ''[Errno 2] No such file or directory: '' @ [apostrophe, apostrophe]))
      else if 0 \<in> set d then Raised (os_error (lit ''embedded null byte''))
      else if \<not> os_fsencodable pf d then Raised (os_error (lit ''surrogates not allowed''))
      else case refused fs d of
             Some e \<Rightarrow> Raised (os_error e)
           | None \<Rightarrow>
               if files fs d \<noteq> None
               then Raised (os_error (lit ''[Errno 17] File exists: '' @ [apostrophe] @ d @ [apostrophe]))
               else if list_ex (\<lambda>a. files fs a \<noteq> None) (os_parents pf d)
               then Raised (os_error (lit ''[Errno 20] Not a directory: '' @ [apostrophe] @ d @ [apostrophe]))
               else Returned (fs\<lparr>dirs := dirs fs \<union> set (d # os_parents pf d)\<rparr>))"

text \<open>
  \<open>with open(p, 'w', encoding='utf-8') as f: f.write(content)\<close>.  Opening fails on
  a path with a NUL character, on a name that cannot be encoded, on a chain of links that
  is too long, on a directory (a path whose last component is empty, \<open>.\<close> or \<open>..\<close>
  always names one) and where the system refuses.  It follows symbolic links, and
  truncates the file it arrives at.  Writing fails on a surrogate code point, which UTF-8
  cannot encode, and leaves that file empty.
\<close>

definition write_text ::
    "platform \<Rightarrow> filesystem \<Rightarrow> pystr \<Rightarrow> pystr \<Rightarrow> py_exception option \<times> filesystem" where
  "write_text pf fs p contents =
     (if 0 \<in> set p then (Some (os_error (lit ''embedded null byte'')), fs)
      else if \<not> os_fsencodable pf p then (Some (os_error (lit ''surrogates not allowed'')), fs)
      else case follow max_links (links fs) p of
             None \<Rightarrow>
               (Some (os_error (lit ''[Errno 40] Too many levels of symbolic links: ''
                                  @ [apostrophe] @ p @ [apostrophe])), fs)
           | Some q \<Rightarrow>
               if os_basename pf p = [] \<or> os_basename pf p = lit ''.'' \<or> os_basename pf p = lit ''..''
                  \<or> q \<in> dirs fs
               then (Some (os_error (lit ''[Errno 21] Is a directory: '' @ [apostrophe] @ p @ [apostrophe])), fs)
               else case refused fs q of
                      Some e \<Rightarrow> (Some (os_error e), fs)
                    | None \<Rightarrow>
                        if list_ex surrogate contents
                        then (Some (os_error (lit ''surrogates not allowed'')),
                              fs\<lparr>files := (files fs)(q \<mapsto> [])\<rparr>)
                        else (None, fs\<lparr>files := (files fs)(q \<mapsto> contents)\<rparr>))"

definition check_mark :: pychar where "check_mark = 0x2705"

definition write_error_message :: "pystr \<Rightarrow> pystr" where
  "write_error_message e = [cross_mark] @ lit '' B'' @ [0x142, 0x105] @ lit ''d zapisu: '' @ e"

definition written_message :: "pystr \<Rightarrow> pystr \<Rightarrow> pystr" where
  "written_message contents safe_path =
     [check_mark] @ lit '' Zapisano '' @ str_int (int (length contents)) @ lit '' znak'' @ [0xF3]
       @ lit ''w do '' @ [apostrophe] @ safe_path @ [apostrophe]"

text \<open>
  \<open>_write_file\<close>: the platform, the value of the environment variable \<open>MCP_SAFE_DIR\<close>
  (\<open>None\<close> when it is not set) and the file system go in, the message and the file
  system come out.  Every exception here is an instance of \<open>Exception\<close> and becomes a
  message.
\<close>

definition write_file ::
    "platform \<Rightarrow> pystr option \<Rightarrow> filesystem \<Rightarrow> pystr \<Rightarrow> pystr \<Rightarrow> pystr \<times> filesystem" where
  "write_file pf mcp_safe_dir fs path contents =
     (let safe_dir = (case mcp_safe_dir of None \<Rightarrow> lit ''./mcp_workspace'' | Some d \<Rightarrow> d)
      in case makedirs pf fs safe_dir of
           Raised e \<Rightarrow> (write_error_message (message e), fs)
         | Returned fs1 \<Rightarrow>
             (let safe_path = os_join pf safe_dir (os_basename pf path)
              in case write_text pf fs1 safe_path contents of
                   (Some e, fs2) \<Rightarrow> (write_error_message (message e), fs2)
                 | (None, fs2) \<Rightarrow> (written_message contents safe_path, fs2)))"

text \<open>The sandbox directory, and the paths of the entries directly inside a directory.\<close>

definition sandbox :: "pystr option \<Rightarrow> pystr" where
  "sandbox mcp_safe_dir = (case mcp_safe_dir of None \<Rightarrow> lit ''./mcp_workspace'' | Some d \<Rightarrow> d)"

definition inside :: "pystr \<Rightarrow> pystr \<Rightarrow> bool" where
  "inside d p \<longleftrightarrow>
     d \<noteq> [] \<and> basename p \<noteq> [] \<and> basename p \<noteq> lit ''.'' \<and> basename p \<noteq> lit ''..'' \<and>
     p = (if last d = slash then d else d @ [slash]) @ basename p"

definition empty_disk :: filesystem where
  "empty_disk = \<lparr>files = Map.empty, dirs = {}, links = Map.empty, refused = (\<lambda>p. None)\<rparr>"

text \<open>
  A disk on which the sandbox directory holds a symbolic link named \<open>passwd\<close> that
  leads to the file \<open>/etc/passwd\<close>.
\<close>

definition linked_disk :: filesystem where
  "linked_disk =
     \<lparr>files = [lit ''/etc/passwd'' \<mapsto> lit ''root''],
      dirs = {lit ''./mcp_workspace'', lit ''/etc''},
      links = [lit ''./mcp_workspace/passwd'' \<mapsto> lit ''/etc/passwd''],
      refused = (\<lambda>p. None)\<rparr>"

text \<open>
  \<open>_calculator\<close>.  \<open>eval\<close> is the interpreter's: it is given the expression, the
  built-ins it may use and the names it may use, and returns the text of the value or
  raises.
\<close>

definition allowed_chars :: "pychar list" where
  "allowed_chars = lit ''0123456789+-*/().^ ''"

definition math_names :: "pystr list" where
  "math_names = [lit ''sin'', lit ''cos'', lit ''tan'', lit ''sqrt'', lit ''pi'', lit ''e'', lit ''log'',
                 lit ''abs'', lit ''pow'']"

definition rejection_message :: pystr where
  "rejection_message = [cross_mark] @ lit '' Niedozwolone znaki w wyra'' @ [0x17C] @ lit ''eniu''"

definition calculation_error_message :: "pystr \<Rightarrow> pystr" where
  "calculation_error_message e = [cross_mark] @ lit '' B'' @ [0x142, 0x105] @ lit ''d oblicze'' @ [0x144] @ lit '': '' @ e"

definition result_message :: "pystr \<Rightarrow> pystr \<Rightarrow> pystr" where
  "result_message expression result = [0x1F522] @ lit '' '' @ expression @ lit '' = '' @ result"

definition calculator ::
    "(pystr \<Rightarrow> pystr list \<Rightarrow> pystr list \<Rightarrow> pystr outcome) \<Rightarrow> pystr \<Rightarrow> pystr outcome" where
  "calculator eval expression =
     (if \<not> list_all (\<lambda>c. c \<in> set allowed_chars \<or> isspace c) expression then Returned rejection_message
      else
        let expression' = replace_char 0x5E (lit ''**'') expression
        in case eval expression' [] math_names of
             Returned result \<Rightarrow> Returned (result_message expression' result)
           | Raised e \<Rightarrow>
               if is_Exception e then Returned (calculation_error_message (message e)) else Raised e)"





lemmas time_eval = isoformat_def civil_from_days_def day_micros_def max_micros_def minus_days_def

section \<open>Properties of the registry\<close>




section \<open>Properties of the parser\<close>

lemma match_literal_iff: "match_literal p text = Some rest \<longleftrightarrow> text = p @ rest"
  by (induction p "text" rule: match_literal.induct) auto

lemma match_literal_None: "match_literal p text = None \<longleftrightarrow> \<not> prefix p text"
proof -
  have "match_literal p text = None \<longleftrightarrow> (\<forall>r. match_literal p text \<noteq> Some r)" by auto
  then show ?thesis by (auto simp: match_literal_iff prefix_def)
qed

lemma prefix_short:
  assumes "length p \<le> length y"
  shows "prefix p (y @ r) \<longleftrightarrow> prefix p y"
proof
  assume "prefix p (y @ r)"
  then obtain z where "y @ r = p @ z" by (auto simp: prefix_def)
  then have "take (length p) (y @ r) = p" by simp
  with assms have "take (length p) y = p" by simp
  then show "prefix p y" by (metis take_is_prefix)
next
  assume "prefix p y"
  then show "prefix p (y @ r)" by (rule prefix_prefix)
qed

lemma prefix_closer_append:
  "prefix closer (x @ closer @ r) \<longleftrightarrow> prefix closer (x @ closer)"
  using prefix_short [of closer "x @ closer" r] by simp

lemma shortest_args_Nil: "shortest_args []"
  by (simp add: shortest_args_def)

lemma shortest_args_Cons:
  "shortest_args (c # a) \<longleftrightarrow> \<not> prefix closer (c # a @ closer) \<and> shortest_args a"
  by (auto simp: shortest_args_def less_Suc_eq_0_disj)

lemma match_lazy_iff:
  "match_lazy text = Some (a, rest) \<longleftrightarrow> text = a @ closer @ rest \<and> shortest_args a"
proof (induction "text" arbitrary: a)
  case Nil
  then show ?case by (simp add: closer_def)
next
  case (Cons c cs)
  show ?case
  proof (cases "match_literal closer (c # cs)")
    case (Some r)
    then have eq: "c # cs = closer @ r" by (simp only: match_literal_iff)
    from Some have ml: "match_lazy (c # cs) = Some ([], r)" by simp
    show ?thesis
    proof
      assume "match_lazy (c # cs) = Some (a, rest)"
      with ml have "a = []" "rest = r" by simp_all
      with eq show "c # cs = a @ closer @ rest \<and> shortest_args a"
        by (simp only: shortest_args_Nil append_Nil simp_thms)
    next
      assume asm: "c # cs = a @ closer @ rest \<and> shortest_args a"
      have "a = []"
      proof (rule ccontr)
        assume "a \<noteq> []"
        then obtain x a' where a: "a = x # a'" by (cases a) auto
        from asm a have "\<not> prefix closer (a @ closer)" by (simp add: shortest_args_Cons)
        moreover have "prefix closer (a @ closer @ rest)"
          using eq asm by (metis prefixI)
        ultimately show False by (simp only: prefix_closer_append)
      qed
      with asm eq have "rest = r" by simp
      with \<open>a = []\<close> ml show "match_lazy (c # cs) = Some (a, rest)" by simp
    qed
  next
    case None
    then have np: "\<not> prefix closer (c # cs)"
      using match_literal_None [of closer "c # cs"] by blast
    from None have ml: "match_lazy (c # cs) =
        (case match_lazy cs of None \<Rightarrow> None | Some (a', r) \<Rightarrow> Some (c # a', r))" by simp
    show ?thesis
    proof (cases a)
      case Nil
      have "match_lazy (c # cs) \<noteq> Some ([], rest)"
        unfolding ml by (simp split: option.splits)
      moreover have "c # cs \<noteq> closer @ rest" using np by (metis prefixI)
      ultimately show ?thesis using Nil by simp
    next
      case (Cons x a')
      have l: "match_lazy (c # cs) = Some (x # a', rest) \<longleftrightarrow> x = c \<and> match_lazy cs = Some (a', rest)"
        unfolding ml by (auto split: option.splits)
      have r: "\<not> prefix closer (c # a' @ closer)" if "cs = a' @ closer @ rest"
      proof -
        from np that have "\<not> prefix closer ((c # a') @ closer @ rest)" by simp
        then have "\<not> prefix closer ((c # a') @ closer)"
          using prefix_closer_append [of "c # a'" rest] by blast
        then show ?thesis by simp
      qed
      show ?thesis unfolding Cons l Cons.IH [of a'] shortest_args_Cons
        using r by auto
    qed
  qed
qed

lemma rbracket_not_word: "\<not> is_word alnum rbracket"
  by (simp add: is_word_def rbracket_def ascii_word_def)

lemma match_at_iff:
  "match_at alnum text = Some (name, a, rest) \<longleftrightarrow> occurrence_at alnum text name a rest"
proof
  assume "match_at alnum text = Some (name, a, rest)"
  then obtain r1 r3 where t: "text = opener @ r1" and n: "name = takeWhile (is_word alnum) r1"
    and ne: "name \<noteq> []" and d: "dropWhile (is_word alnum) r1 = rbracket # r3"
    and lz: "r3 = a @ closer @ rest" "shortest_args a"
    unfolding match_at_Some match_literal_iff match_lazy_iff by blast
  have "r1 = name @ rbracket # r3" using n d takeWhile_dropWhile_id [of "is_word alnum" r1] by simp
  moreover have "\<forall>c \<in> set name. is_word alnum c" using n by (auto dest: set_takeWhileD)
  ultimately show "occurrence_at alnum text name a rest"
    using t ne lz by (simp add: occurrence_at_def marker_def word_token_def)
next
  assume "occurrence_at alnum text name a rest"
  then have t: "text = opener @ (name @ rbracket # a @ closer @ rest)"
    and w: "name \<noteq> []" "\<forall>c \<in> set name. is_word alnum c" and s: "shortest_args a"
    by (simp_all add: occurrence_at_def marker_def word_token_def)
  have "takeWhile (is_word alnum) (name @ rbracket # a @ closer @ rest) = name"
    using w(2) by (simp add: takeWhile_tail rbracket_not_word)
  moreover have "dropWhile (is_word alnum) (name @ rbracket # a @ closer @ rest) = rbracket # a @ closer @ rest"
    using w(2) by (simp add: dropWhile_append3 rbracket_not_word)
  ultimately show "match_at alnum text = Some (name, a, rest)"
    unfolding match_at_Some match_literal_iff match_lazy_iff using t w(1) s by auto
qed

lemma match_at_None: "match_at alnum text = None \<longleftrightarrow> (\<forall>name a rest. \<not> occurrence_at alnum text name a rest)"
proof -
  have "match_at alnum text = None \<longleftrightarrow> (\<forall>name a rest. match_at alnum text \<noteq> Some (name, a, rest))"
    by (cases "match_at alnum text") auto
  then show ?thesis by (simp add: match_at_iff)
qed

lemma occurrences_findall: "occurrences alnum text (findall alnum text)"
proof (induction alnum "text" rule: findall.induct)
  case (1 alnum)
  show ?case by (simp add: occ_end)
next
  case (2 alnum c cs)
  show ?case
  proof (cases "match_at alnum (c # cs)")
    case None
    then have "findall alnum (c # cs) = findall alnum cs" by simp
    moreover from None have "\<forall>name a rest. \<not> occurrence_at alnum (c # cs) name a rest"
      using match_at_None [of alnum "c # cs"] by blast
    moreover from None 2 have "occurrences alnum cs (findall alnum cs)" by simp
    ultimately show ?thesis by (simp add: occ_skip)
  next
    case (Some m)
    obtain name a rest where m: "m = (name, a, rest)" by (cases m)
    with Some 2 have "occurrences alnum rest (findall alnum rest)" by simp
    moreover from Some m have "occurrence_at alnum (c # cs) name a rest" by (simp add: match_at_iff)
    ultimately show ?thesis using Some m by (simp add: occ_here)
  qed
qed

lemma occurrences_unique: "occurrences alnum text ms \<Longrightarrow> ms = findall alnum text"
proof (induction rule: occurrences.induct)
  case occ_end
  show ?case by simp
next
  case (occ_here c cs name a rest ms)
  then show ?case by (simp add: match_at_iff [symmetric])
next
  case (occ_skip c cs ms)
  then show ?case by (simp add: match_at_None [symmetric])
qed

lemma parse_map: "parse_tool_call_from_text alnum text = map call_of (findall alnum text)"
  by (simp add: parse_tool_call_from_text_def call_of_def case_prod_unfold)

lemma findall_no_match:
  "(\<forall>k. match_at alnum (drop k text) = None) \<Longrightarrow> findall alnum text = []"
proof (induction "text")
  case Nil
  show ?case by simp
next
  case (Cons c cs)
  from Cons.prems have "match_at alnum (drop 0 (c # cs)) = None" by blast
  then have m: "match_at alnum (c # cs) = None" by simp
  have "\<forall>k. match_at alnum (drop k cs) = None"
  proof
    fix k
    from Cons.prems have "match_at alnum (drop (Suc k) (c # cs)) = None" by blast
    then show "match_at alnum (drop k cs) = None" by simp
  qed
  then have "findall alnum cs = []" by (rule Cons.IH)
  with m show ?case by simp
qed

text \<open>
  C5: the parser returns one entry per occurrence of a call marker, in the order of the
  occurrences: the occurrences of a text are a unique list, and the result is that list
  with each occurrence turned into its entry.  A text in which no marker occurs at any
  position yields the empty list.
\<close>

theorem parse_one_entry_per_occurrence:
  "(\<exists>ms. occurrences alnum text ms \<and> (\<forall>ms'. occurrences alnum text ms' \<longrightarrow> ms' = ms) \<and>
         parse_tool_call_from_text alnum text = map call_of ms) \<and>
   ((\<forall>k name a rest. \<not> occurrence_at alnum (drop k text) name a rest) \<longrightarrow>
      parse_tool_call_from_text alnum text = [])"
proof
  show "\<exists>ms. occurrences alnum text ms \<and> (\<forall>ms'. occurrences alnum text ms' \<longrightarrow> ms' = ms) \<and>
         parse_tool_call_from_text alnum text = map call_of ms"
    using occurrences_findall [of alnum "text"] occurrences_unique [of alnum "text"] parse_map [of alnum "text"]
    by blast
next
  show "(\<forall>k name a rest. \<not> occurrence_at alnum (drop k text) name a rest) \<longrightarrow>
      parse_tool_call_from_text alnum text = []"
  proof
    assume "\<forall>k name a rest. \<not> occurrence_at alnum (drop k text) name a rest"
    then have "\<forall>k. match_at alnum (drop k text) = None" by (simp add: match_at_None)
    then have "findall alnum text = []" by (rule findall_no_match)
    then show "parse_tool_call_from_text alnum text = []" by (simp add: parse_map)
  qed
qed

lemma occurrence_at_lbracket: "occurrence_at alnum text name a rest \<Longrightarrow> 0x5B \<in> set text"
  by (simp add: occurrence_at_def marker_def opener_def)

lemmas match_eval = match_at_def opener_def closer_def is_word_def ascii_word_def rbracket_def

lemma findall_two_calls:
  "findall latin1_alnum two_calls_text = [(lit ''a'', lit ''1''), (lit ''b'', lit ''2'')]"
  by (simp add: two_calls_text_def match_eval)

theorem parse_one_entry_per_occurrence_witness:
  "parse_tool_call_from_text latin1_alnum two_calls_text =
     [\<lparr>tool = lit ''a'', args = [(lit ''query'', lit ''1'')]\<rparr>,
      \<lparr>tool = lit ''b'', args = [(lit ''query'', lit ''2'')]\<rparr>] \<and>
   parse_tool_call_from_text latin1_alnum (lit ''no calls'') = []"
proof -
  have occ: "occurrences latin1_alnum two_calls_text [(lit ''a'', lit ''1''), (lit ''b'', lit ''2'')]"
    using occurrences_findall [of latin1_alnum two_calls_text] by (simp only: findall_two_calls)
  obtain ms where "\<forall>ms'. occurrences latin1_alnum two_calls_text ms' \<longrightarrow> ms' = ms"
    and p: "parse_tool_call_from_text latin1_alnum two_calls_text = map call_of ms"
    using parse_one_entry_per_occurrence [of latin1_alnum two_calls_text] by blast
  with occ have "ms = [(lit ''a'', lit ''1''), (lit ''b'', lit ''2'')]" by blast
  with p have first: "parse_tool_call_from_text latin1_alnum two_calls_text =
     [\<lparr>tool = lit ''a'', args = [(lit ''query'', lit ''1'')]\<rparr>,
      \<lparr>tool = lit ''b'', args = [(lit ''query'', lit ''2'')]\<rparr>]"
    by (simp add: call_of_def parse_arguments_def equals_sign_def query_tools_def strip_def isspace_def)
  have "0x5B \<notin> set (drop k (lit ''no calls''))" for k
    using set_drop_subset [of k "lit ''no calls''"] by auto
  then have "\<forall>k name a rest. \<not> occurrence_at latin1_alnum (drop k (lit ''no calls'')) name a rest"
    using occurrence_at_lbracket by blast
  then have "parse_tool_call_from_text latin1_alnum (lit ''no calls'') = []"
    using parse_one_entry_per_occurrence [of latin1_alnum "lit ''no calls''"] by blast
  with first show ?thesis by blast
qed

lemma parse_nth:
  assumes "occurrences alnum text ms" and "i < length ms"
  shows "length (parse_tool_call_from_text alnum text) = length ms"
    and "parse_tool_call_from_text alnum text ! i = call_of (ms ! i)"
proof -
  from assms(1) have "ms = findall alnum text" by (rule occurrences_unique)
  then have p: "parse_tool_call_from_text alnum text = map call_of ms" by (simp add: parse_map)
  then show "length (parse_tool_call_from_text alnum text) = length ms" by simp
  from p assms(2) show "parse_tool_call_from_text alnum text ! i = call_of (ms ! i)" by simp
qed

lemma parse_arguments_positional:
  assumes "equals_sign \<notin> set a"
  shows "parse_arguments name a = positional_args name a"
  using assms
  by (simp add: parse_arguments_def positional_args_def query_tools_def split: prod.splits)

lemma split_once_Some: "split_once sep s = (p, Some q) \<longleftrightarrow> s = p @ sep # q \<and> sep \<notin> set p"
proof
  assume "split_once sep s = (p, Some q)"
  then have m: "sep \<in> set s" and p: "p = takeWhile (\<lambda>c. c \<noteq> sep) s"
    and q: "q = tl (dropWhile (\<lambda>c. c \<noteq> sep) s)"
    by (auto simp: split_once_def split: if_splits)
  from m have "dropWhile (\<lambda>c. c \<noteq> sep) s \<noteq> []" by auto
  moreover from this have "hd (dropWhile (\<lambda>c. c \<noteq> sep) s) = sep"
    using hd_dropWhile [of "\<lambda>c. c \<noteq> sep" s] by simp
  ultimately have "dropWhile (\<lambda>c. c \<noteq> sep) s = sep # q" using q by (metis list.collapse)
  with p have "s = p @ sep # q" using takeWhile_dropWhile_id [of "\<lambda>c. c \<noteq> sep" s] by simp
  moreover from p have "sep \<notin> set p" by (auto dest: set_takeWhileD)
  ultimately show "s = p @ sep # q \<and> sep \<notin> set p" by simp
next
  assume a: "s = p @ sep # q \<and> sep \<notin> set p"
  then have all: "\<forall>x \<in> set p. x \<noteq> sep" by auto
  then have "takeWhile (\<lambda>c. c \<noteq> sep) (p @ sep # q) = p"
    by (simp add: takeWhile_tail)
  moreover from all have "dropWhile (\<lambda>c. c \<noteq> sep) (p @ sep # q) = sep # q"
    by simp
  ultimately show "split_once sep s = (p, Some q)"
    using a by (simp add: split_once_def)
qed

lemma split_once_None: "split_once sep s = (p, None) \<longleftrightarrow> sep \<notin> set s \<and> p = s"
  by (auto simp: split_once_def)

text \<open>
  C6 (as stated, refuted): for \<open>write_file\<close> the code does not map the two parts of
  the split to path and content as they are; both parts are trimmed.
\<close>

theorem positional_fallback_counterexample:
  "parse_tool_call_from_text latin1_alnum (lit ''[TOOL:write_file]a | b[/TOOL]'') =
     [\<lparr>tool = lit ''write_file'', args = [(lit ''path'', lit ''a''), (lit ''content'', lit ''b'')]\<rparr>] \<and>
   positional_args_as_stated (lit ''write_file'') (lit ''a | b'') =
     [(lit ''path'', lit ''a ''), (lit ''content'', lit '' b'')] \<and>
   parse_tool_call_from_text latin1_alnum (lit ''[TOOL:write_file]a | b[/TOOL]'') \<noteq>
     [\<lparr>tool = lit ''write_file'',
       args = positional_args_as_stated (lit ''write_file'') (lit ''a | b'')\<rparr>]"
  by (simp add: parse_tool_call_from_text_def match_eval parse_arguments_def equals_sign_def bar_def
      split_once_def strip_def isspace_def positional_args_as_stated_def)

text \<open>
  C6 (amended): for every parsed call whose argument segment contains no \<open>=\<close>, the
  arguments are given by the tool name: \<open>read_file\<close> maps the trimmed segment to
  path; \<open>write_file\<close> splits the segment once on the first \<open>|\<close> and maps the trimmed
  first part to path and the trimmed remainder to content (the empty string without
  \<open>|\<close>); \<open>tavily_scrape\<close> maps the trimmed segment to url; every other name maps
  the trimmed segment to query.
\<close>

theorem positional_fallback:
  assumes "occurrences alnum text ms" and "i < length ms" and "ms ! i = (name, a)"
    and "equals_sign \<notin> set a"
  shows "length (parse_tool_call_from_text alnum text) = length ms \<and>
         parse_tool_call_from_text alnum text ! i = \<lparr>tool = name, args = positional_args name a\<rparr>"
  using parse_nth [OF assms(1,2)] assms(3) parse_arguments_positional [OF assms(4), of name]
  by (simp add: call_of_def)

lemma singleton_list: "length xs = 1 \<Longrightarrow> xs ! 0 = x \<Longrightarrow> xs = [x]"
  by (cases xs) auto

lemma findall_calculator:
  "findall latin1_alnum (lit ''[TOOL:calculator]2+2[/TOOL]'') = [(lit ''calculator'', lit ''2+2'')]"
  by (simp add: match_eval)

theorem positional_fallback_witness:
  "parse_tool_call_from_text latin1_alnum (lit ''[TOOL:calculator]2+2[/TOOL]'') =
     [\<lparr>tool = lit ''calculator'', args = [(lit ''query'', lit ''2+2'')]\<rparr>]"
proof -
  let ?t = "lit ''[TOOL:calculator]2+2[/TOOL]''"
  have occ: "occurrences latin1_alnum ?t [(lit ''calculator'', lit ''2+2'')]"
    using occurrences_findall [of latin1_alnum ?t] by (simp only: findall_calculator)
  have "length (parse_tool_call_from_text latin1_alnum ?t) = length [(lit ''calculator'', lit ''2+2'')] \<and>
        parse_tool_call_from_text latin1_alnum ?t ! 0 =
          \<lparr>tool = lit ''calculator'', args = positional_args (lit ''calculator'') (lit ''2+2'')\<rparr>"
    by (rule positional_fallback [OF occ]) (simp_all add: equals_sign_def)
  then have "length (parse_tool_call_from_text latin1_alnum ?t) = 1"
    and "parse_tool_call_from_text latin1_alnum ?t ! 0 =
          \<lparr>tool = lit ''calculator'', args = [(lit ''query'', lit ''2+2'')]\<rparr>"
    by (simp_all add: positional_args_def strip_def isspace_def)
  then show ?thesis by (rule singleton_list)
qed

lemma split_acc_no_sep: "sep \<notin> set p \<Longrightarrow> split_acc sep cur p = [rev cur @ p]"
  by (induction p arbitrary: cur) auto

lemma split_acc_sep:
  "sep \<notin> set p \<Longrightarrow> split_acc sep cur (p @ sep # r) = (rev cur @ p) # split_acc sep [] r"
  by (induction p arbitrary: cur) auto

lemma split_join:
  "ps \<noteq> [] \<Longrightarrow> \<forall>p \<in> set ps. sep \<notin> set p \<Longrightarrow> split sep (join sep ps) = ps"
proof (induction sep ps rule: join.induct)
  case (1 sep)
  then show ?case by simp
next
  case (2 sep p)
  then show ?case by (simp add: split_def split_acc_no_sep)
next
  case (3 sep p q ps)
  then have "split_acc sep [] (join sep (q # ps)) = q # ps" by (simp add: split_def)
  with 3 show ?case by (simp add: split_def split_acc_sep)
qed

lemma assign_pair_eq:
  "assign_pair p kw =
     (if equals_sign \<in> set p then AList.update (fst (key_value p)) (snd (key_value p)) kw else kw)"
  by (simp add: assign_pair_def split_once_def key_value_def)

lemma map_of_fold_assign:
  "map_of (fold assign_pair ps kw) =
     map_of kw ++ map_of (rev (map key_value (filter (\<lambda>p. equals_sign \<in> set p) ps)))"
proof (induction ps arbitrary: kw)
  case Nil
  show ?case by simp
next
  case (Cons p ps)
  show ?case
  proof (cases "equals_sign \<in> set p")
    case True
    let ?M = "map_of (rev (map key_value (filter (\<lambda>p. equals_sign \<in> set p) ps)))"
    let ?kv = "[fst (key_value p) \<mapsto> snd (key_value p)]"
    from True have "map_of (assign_pair p kw) = map_of kw ++ ?kv"
      by (simp add: assign_pair_eq update_conv')
    then have "map_of (fold assign_pair (p # ps) kw) = (map_of kw ++ ?kv) ++ ?M"
      by (simp only: fold_simps Cons.IH)
    also have "\<dots> = map_of kw ++ (?kv ++ ?M)" by (simp only: map_add_assoc)
    also have "?kv ++ ?M = map_of (rev (map key_value (filter (\<lambda>p. equals_sign \<in> set p) (p # ps))))"
      using True by simp
    finally show ?thesis .
  next
    case False
    then have "assign_pair p kw = kw" by (simp add: assign_pair_eq)
    then have "fold assign_pair (p # ps) kw = fold assign_pair ps kw" by simp
    with False show ?thesis by (simp add: Cons.IH)
  qed
qed

lemma distinct_fold_assign:
  "distinct (map fst kw) \<Longrightarrow> distinct (map fst (fold assign_pair ps kw))"
proof (induction ps arbitrary: kw)
  case Nil
  then show ?case by simp
next
  case (Cons p ps)
  from Cons.prems have "distinct (map fst (assign_pair p kw))"
    by (simp add: assign_pair_eq distinct_update)
  then have "distinct (map fst (fold assign_pair ps (assign_pair p kw)))" by (rule Cons.IH)
  then show ?case by simp
qed

text \<open>
  C7: for every parsed call whose argument segment contains an \<open>=\<close>, the segment is
  split on \<open>|\<close>; each piece with an \<open>=\<close> is split on its first \<open>=\<close> into a key
  and a value, both trimmed, and assigned in the dictionary (a later assignment to the
  same key replaces the earlier one); pieces without \<open>=\<close> are skipped.
\<close>

theorem key_value_arguments:
  assumes "occurrences alnum text ms" and "i < length ms" and "ms ! i = (name, a)"
    and "equals_sign \<in> set a"
    and "pieces \<noteq> []" and "join bar pieces = a" and "\<forall>p \<in> set pieces. bar \<notin> set p"
  shows "tool (parse_tool_call_from_text alnum text ! i) = name \<and>
         distinct (map fst (args (parse_tool_call_from_text alnum text ! i))) \<and>
         map_of (args (parse_tool_call_from_text alnum text ! i)) =
           map_of (rev (map key_value (filter (\<lambda>p. equals_sign \<in> set p) pieces)))"
proof -
  have c: "parse_tool_call_from_text alnum text ! i = call_of (name, a)"
    using parse_nth(2) [OF assms(1,2)] assms(3) by simp
  have "split bar a = pieces" using split_join [OF assms(5,7)] assms(6) by simp
  with assms(4) have "parse_arguments name a = fold assign_pair pieces []"
    by (simp add: parse_arguments_def)
  with c have "args (parse_tool_call_from_text alnum text ! i) = fold assign_pair pieces []"
    and "tool (parse_tool_call_from_text alnum text ! i) = name"
    by (simp_all add: call_of_def)
  then show ?thesis by (simp add: map_of_fold_assign distinct_fold_assign)
qed

lemma findall_key_value_text:
  "findall latin1_alnum key_value_text = [(lit ''write_file'', lit ''path=a.txt|content=hi'')]"
  by (simp add: key_value_text_def match_eval)

theorem key_value_arguments_witness:
  "tool (parse_tool_call_from_text latin1_alnum key_value_text ! 0) = lit ''write_file'' \<and>
   map_of (args (parse_tool_call_from_text latin1_alnum key_value_text ! 0)) =
     map_of [(lit ''content'', lit ''hi''), (lit ''path'', lit ''a.txt'')] \<and>
   parse_tool_call_from_text latin1_alnum key_value_text =
     [\<lparr>tool = lit ''write_file'',
       args = [(lit ''path'', lit ''a.txt''), (lit ''content'', lit ''hi'')]\<rparr>]"
proof -
  have occ: "occurrences latin1_alnum key_value_text [(lit ''write_file'', lit ''path=a.txt|content=hi'')]"
    using occurrences_findall [of latin1_alnum key_value_text] by (simp only: findall_key_value_text)
  have "tool (parse_tool_call_from_text latin1_alnum key_value_text ! 0) = lit ''write_file'' \<and>
        distinct (map fst (args (parse_tool_call_from_text latin1_alnum key_value_text ! 0))) \<and>
        map_of (args (parse_tool_call_from_text latin1_alnum key_value_text ! 0)) =
          map_of (rev (map key_value (filter (\<lambda>p. equals_sign \<in> set p)
            [lit ''path=a.txt'', lit ''content=hi''])))"
    by (rule key_value_arguments [OF occ]) (simp_all add: equals_sign_def bar_def)
  moreover have "rev (map key_value (filter (\<lambda>p. equals_sign \<in> set p)
            [lit ''path=a.txt'', lit ''content=hi''])) =
       [(lit ''content'', lit ''hi''), (lit ''path'', lit ''a.txt'')]"
    by (simp add: key_value_def equals_sign_def strip_def isspace_def)
  moreover have "parse_tool_call_from_text latin1_alnum key_value_text =
     [\<lparr>tool = lit ''write_file'',
       args = [(lit ''path'', lit ''a.txt''), (lit ''content'', lit ''hi'')]\<rparr>]"
    by (simp add: parse_map findall_key_value_text call_of_def parse_arguments_def equals_sign_def
        bar_def split_def assign_pair_def split_once_def strip_def isspace_def)
  ultimately show ?thesis by simp
qed

section \<open>Properties of the research client\<close>

lemma unique_loop_Returned:
  "\<forall>r \<in> set rs. \<not> unhashable (url r) \<Longrightarrow> unique_loop rs seen acc = Returned (acc @ firsts seen rs)"
proof (induction rs arbitrary: seen acc)
  case Nil
  show ?case by simp
next
  case (Cons x rs)
  from Cons.prems have rest: "\<forall>r \<in> set rs. \<not> unhashable (url r)" and x: "\<not> unhashable (url x)"
    by simp_all
  show ?case
  proof (cases "url x")
    case NoUrl
    with Cons.IH [OF rest] show ?thesis by simp
  next
    case (UrlText u)
    with Cons.IH [OF rest] show ?thesis by simp
  next
    case UrlArray
    with x show ?thesis by (simp add: unhashable_def)
  next
    case UrlObject
    with x show ?thesis by (simp add: unhashable_def)
  qed
qed

lemma unique_loop_Raised:
  "\<exists>r \<in> set rs. unhashable (url r) \<Longrightarrow> \<exists>e. unique_loop rs seen acc = Raised e"
proof (induction rs arbitrary: seen acc)
  case Nil
  then show ?case by simp
next
  case (Cons x rs)
  show ?case
  proof (cases "unhashable (url x)")
    case True
    then show ?thesis by (auto simp: unhashable_def)
  next
    case False
    with Cons.prems have "\<exists>r \<in> set rs. unhashable (url r)" by simp
    then have ih: "\<exists>e. unique_loop rs s a = Raised e" for s a by (rule Cons.IH)
    from False show ?thesis
      by (cases "url x") (simp_all add: unhashable_def ih)
  qed
qed









lemma keeps_iff:
  "keeps f cutoff r \<longleftrightarrow>
     published_date r = None \<or> published_date r = Some [] \<or>
     (\<exists>d. published_date r = Some d \<and>
        (f (replace_char 0x5A (lit ''+00:00'') d) = None \<or>
         (\<exists>dt. f (replace_char 0x5A (lit ''+00:00'') d) = Some dt \<and>
            (utcoffset dt \<noteq> None \<or> cutoff \<le> micros dt))))"
  by (auto simp: keeps_def split: option.splits)

lemma search_ok:
  assumes "tavily_api_key env \<noteq> []"
    and "post env \<lparr>r_query = query, r_max_age_days = max_age_days, r_num_results = num_results,
                     r_search_depth = depth, r_include_answer = True\<rparr>
           = HttpResponse 200 body (Inr data)"
    and "minus_days (now env) max_age_days = Returned cutoff"
    and "b_results data = Some raw"
  shows "\<exists>r. fst (search f env query max_age_days num_results depth) = Success r \<and>
           s_results r = slice_to num_results (filter (keeps f cutoff) raw) \<and>
           total_found r = length (filter (keeps f cutoff) raw) \<and>
           (filtered_by_date r \<longleftrightarrow> length (filter (keeps f cutoff) raw) < length raw)"
  using assms by (simp add: search_def Let_def)

text \<open>
  C2: the recency filter is meant to exclude every result whose date is older than
  \<open>max_age_days\<close>.  On 2026-11-03, with \<open>max_age_days = 120\<close>, a result dated
  \<open>2000-01-01T00:00:00Z\<close> is kept and \<open>filtered_by_date\<close> is false: the parsed date has a
  UTC offset, the comparison with the naive cutoff raises, and the bare \<open>except\<close> keeps
  the result.  The same date without the suffix is excluded.
\<close>

theorem search_keeps_stale_utc_date:
  "fst (search fromisoformat_sample (online_env [stale_utc]) (lit ''x'') 120 10 (lit ''advanced'')) =
     Success \<lparr>s_query = lit ''x'', s_results = [stale_utc], total_found = 1, filtered_by_date = False,
       response_time_ms = 1234, answer = Some [], mock = False, s_message = None\<rparr> \<and>
   fst (search fromisoformat_sample (online_env [stale_naive]) (lit ''x'') 120 10 (lit ''advanced'')) =
     Success \<lparr>s_query = lit ''x'', s_results = [], total_found = 0, filtered_by_date = True,
       response_time_ms = 1234, answer = Some [], mock = False, s_message = None\<rparr>"
  by code_simp

text \<open>
  C8 (as stated, refuted): two calls with the same arguments, made a day apart, return
  different payloads.
\<close>

theorem mock_not_reproducible_counterexample:
  "fst (search fromisoformat_sample (offline_env 63929316900000000) (lit ''x'') 120 10 (lit ''advanced''))
     \<noteq> fst (search fromisoformat_sample (offline_env 63929403300000000) (lit ''x'') 120 10 (lit ''advanced''))"
  by code_simp

text \<open>
  C8 (amended): without a credential \<open>search\<close> sends no request and returns a
  success-shaped response tagged \<open>mock\<close> with exactly one synthetic result.  The payload
  is not random: the result's \<open>published_date\<close> is the clock reading of the call minus
  seven days, and every other field is fixed by the query and \<open>max_age_days\<close>; so two
  calls with the same query and \<open>max_age_days\<close> return payloads that differ at most in
  \<open>published_date\<close>, and equal payloads when the clock reads the same.
\<close>

theorem search_without_credential:
  assumes "tavily_api_key env = []"
  shows "snd (search f env query max_age_days num_results depth) = [] \<and>
    (\<exists>r x. fst (search f env query max_age_days num_results depth) = Success r \<and>
        mock r \<and> s_results r = [x] \<and> total_found r = 1 \<and>
        published_date x = Some (isoformat (now env - 7 * day_micros)) \<and>
        (\<forall>f' env' num_results' depth'. tavily_api_key env' = [] \<longrightarrow>
           fst (search f' env' query max_age_days num_results' depth') =
             Success (r\<lparr>s_results :=
               [x\<lparr>published_date := Some (isoformat (now env' - 7 * day_micros))\<rparr>]\<rparr>))) \<and>
    (\<forall>f' env' num_results' depth'. tavily_api_key env' = [] \<and> now env' = now env \<longrightarrow>
       search f' env' query max_age_days num_results' depth' =
         search f env query max_age_days num_results depth)"
  using assms by (simp add: search_def mock_search_def)

theorem search_without_credential_witness:
  "snd (search fromisoformat_sample (offline_env 63929316900000000) (lit ''x'') 120 10 (lit ''advanced'')) = [] \<and>
   success (fst (search fromisoformat_sample (offline_env 63929316900000000) (lit ''x'') 120 10 (lit ''advanced''))) \<and>
   length (results_of (fst (search fromisoformat_sample (offline_env 63929316900000000) (lit ''x'') 120 10
      (lit ''advanced'')))) = 1"
proof -
  have "tavily_api_key (offline_env 63929316900000000) = []" by (simp add: offline_env_def)
  from search_without_credential [OF this, of fromisoformat_sample "lit ''x''" 120 10 "lit ''advanced''"]
  show ?thesis by auto
qed

lemma deep_research_unfold:
  assumes "search f env query max_age_days 10 (lit ''advanced'') = (found, sent)"
    and "lit ''tavily'' \<in> set (case sources of None \<Rightarrow> [lit ''tavily''] | Some s \<Rightarrow> s)"
  shows "deep_research f env query sources max_age_days =
     (case unique_loop (results_of found) [] [] of
        Raised e \<Rightarrow> Raised e
      | Returned unique_results \<Rightarrow>
          Returned \<lparr>d_success = True, d_query = query, d_results = take 15 unique_results,
            total_unique = length unique_results,
            sources_checked = (case sources of None \<Rightarrow> [lit ''tavily''] | Some s \<Rightarrow> s),
            timestamp = isoformat (now env)\<rparr>,
      sent)"
proof -
  have "(if success found then results_of found else []) = results_of found"
    by (cases found) simp_all
  with assms show ?thesis by (simp add: deep_research_def Let_def)
qed

lemma deep_research_no_search:
  assumes "lit ''tavily'' \<notin> set (case sources of None \<Rightarrow> [lit ''tavily''] | Some s \<Rightarrow> s)"
  shows "deep_research f env query sources max_age_days =
     (Returned \<lparr>d_success = True, d_query = query, d_results = [], total_unique = 0,
        sources_checked = (case sources of None \<Rightarrow> [lit ''tavily''] | Some s \<Rightarrow> s),
        timestamp = isoformat (now env)\<rparr>, [])"
  using assms by (simp add: deep_research_def Let_def)

text \<open>
  C10 (as stated, refuted): \<open>deep_research\<close> does not always return.  When a result
  found has an array as its URL, the membership test in the deduplication loop raises
  \<open>TypeError\<close>, and nothing in \<open>deep_research\<close> catches it.
\<close>

theorem deep_research_raises_counterexample:
  "fst (deep_research fromisoformat_sample (online_env [array_url_result]) (lit ''x'') None 120)
     = Raised (unhashable_error (lit ''list''))"
  by code_simp

text \<open>
  C10 (amended): \<open>deep_research\<close> never returns a failure-shaped response: whenever it
  returns, the response is success-shaped.  It returns whenever no result found has a
  non-empty array or object as its URL (and raises \<open>TypeError\<close> otherwise); in
  particular, when the underlying search returns a failure-shaped response, the failure
  is dropped and the response is success-shaped with no results.
\<close>

theorem deep_research_success_shaped:
  "(\<forall>resp. fst (deep_research f env query sources max_age_days) = Returned resp \<longrightarrow> d_success resp) \<and>
   ((\<forall>r \<in> set (results_of (fst (search f env query max_age_days 10 (lit ''advanced'')))).
        \<not> unhashable (url r)) \<longrightarrow>
      (\<exists>resp. fst (deep_research f env query sources max_age_days) = Returned resp \<and> d_success resp)) \<and>
   (\<not> success (fst (search f env query max_age_days 10 (lit ''advanced''))) \<longrightarrow>
      (\<exists>resp. fst (deep_research f env query sources max_age_days) = Returned resp \<and> d_success resp \<and>
         d_results resp = [] \<and> total_unique resp = 0)) \<and>
   ((\<exists>r \<in> set (results_of (fst (search f env query max_age_days 10 (lit ''advanced'')))).
        unhashable (url r)) \<longrightarrow>
      (\<exists>e. fst (deep_research f env query None max_age_days) = Raised e))"
proof -
  obtain found sent where srch: "search f env query max_age_days 10 (lit ''advanced'') = (found, sent)"
    by (cases "search f env query max_age_days 10 (lit ''advanced'')")
  let ?src = "case sources of None \<Rightarrow> [lit ''tavily''] | Some s \<Rightarrow> s"
  let ?d = "fst (deep_research f env query sources max_age_days)"
  have shape: "d_success resp" if "?d = Returned resp" for resp
  proof (cases "lit ''tavily'' \<in> set ?src")
    case True
    from that show ?thesis
      unfolding deep_research_unfold [OF srch True]
      by (cases "unique_loop (results_of found) [] []") auto
  next
    case False
    from that show ?thesis
      unfolding deep_research_no_search [OF False] by auto
  qed
  have returns: "\<exists>resp. ?d = Returned resp \<and> d_success resp \<and>
      (results_of found = [] \<longrightarrow> d_results resp = [] \<and> total_unique resp = 0)"
    if "\<forall>r \<in> set (results_of found). \<not> unhashable (url r)"
  proof (cases "lit ''tavily'' \<in> set ?src")
    case True
    from that have "unique_loop (results_of found) [] [] = Returned ([] @ firsts [] (results_of found))"
      by (rule unique_loop_Returned)
    then show ?thesis
      unfolding deep_research_unfold [OF srch True] by auto
  next
    case False
    show ?thesis
      unfolding deep_research_no_search [OF False] by simp
  qed
  have failed: "results_of found = []" if "\<not> success found"
    using that by (cases found) simp_all
  have raises: "\<exists>e. fst (deep_research f env query None max_age_days) = Raised e"
    if "\<exists>r \<in> set (results_of found). unhashable (url r)"
  proof -
    from that obtain e where "unique_loop (results_of found) [] [] = Raised e"
      using unique_loop_Raised by blast
    then show ?thesis
      using deep_research_unfold [OF srch, of None] by simp
  qed
  from shape returns failed raises srch show ?thesis
    by (auto simp del: ex_simps)
qed

theorem deep_research_success_shaped_witness:
  "\<not> success (fst (search fromisoformat_sample unreachable_env (lit ''x'') 120 10 (lit ''advanced''))) \<and>
   fst (deep_research fromisoformat_sample unreachable_env (lit ''x'') None 120) = Returned empty_response \<and>
   d_success empty_response \<and> d_results empty_response = [] \<and> total_unique empty_response = 0"
proof -
  let ?d = "fst (deep_research fromisoformat_sample unreachable_env (lit ''x'') None 120)"
  have f: "\<not> success (fst (search fromisoformat_sample unreachable_env (lit ''x'') 120 10 (lit ''advanced'')))"
    by (simp add: search_def unreachable_env_def Let_def)
  have d: "?d = Returned empty_response"
    by code_simp
  from f deep_research_success_shaped [of fromisoformat_sample unreachable_env "lit ''x''" None 120]
  obtain resp where "?d = Returned resp" "d_success resp" "d_results resp = []" "total_unique resp = 0"
    by blast
  with d have "d_success empty_response" "d_results empty_response = []" "total_unique empty_response = 0"
    by simp_all
  with f d show ?thesis by simp
qed



section \<open>Properties of the file and calculator tools\<close>

lemma basename_no_slash: "slash \<notin> set (basename p)"
  by (auto simp: basename_def dest: set_takeWhileD)

lemma basename_append:
  assumes "slash \<notin> set b"
  shows "basename (x @ slash # b) = b"
proof -
  have "takeWhile (\<lambda>c. c \<noteq> slash) (rev b @ slash # rev x) = takeWhile (\<lambda>c. c \<noteq> slash) (rev b)"
    by (simp add: takeWhile_tail)
  also have "\<dots> = rev b" using assms by auto
  finally show ?thesis by (simp add: basename_def)
qed

lemma join_basename:
  assumes "d \<noteq> []"
  shows "join_path d (basename p) = (if last d = slash then d else d @ [slash]) @ basename p"
proof (cases "basename p")
  case Nil
  with assms show ?thesis by (simp add: join_path_def)
next
  case (Cons c cs)
  with basename_no_slash [of p] have "c \<noteq> slash" by auto
  with Cons assms show ?thesis by (simp add: join_path_def)
qed

lemma basename_join:
  assumes "d \<noteq> []"
  shows "basename (join_path d (basename p)) = basename p"
proof (cases "last d = slash")
  case True
  with assms have "d = butlast d @ [slash]" by (metis append_butlast_last_id)
  then have "join_path d (basename p) = butlast d @ slash # basename p"
    using join_basename [OF assms, of p] True by (metis append.assoc append_Cons append_Nil)
  then show ?thesis by (simp add: basename_append basename_no_slash)
next
  case False
  then have "join_path d (basename p) = d @ slash # basename p"
    using join_basename [OF assms, of p] by simp
  then show ?thesis by (simp add: basename_append basename_no_slash)
qed

lemma follow_no_link: "ls p = None \<Longrightarrow> follow n ls p = Some p"
  by (cases n) simp_all

lemma follow_Suc_link: "ls p = Some t \<Longrightarrow> ls t = None \<Longrightarrow> follow (Suc n) ls p = Some t"
  by (simp add: follow_no_link)

lemma follow_one_link: "ls p = Some t \<Longrightarrow> ls t = None \<Longrightarrow> follow max_links ls p = Some t"
  using follow_Suc_link [of ls p t 39] by (simp add: max_links_def)

lemma makedirs_Returned:
  assumes "makedirs pf fs d = Returned fs1"
  shows "d \<noteq> []" and "fs1 = fs\<lparr>dirs := dirs fs \<union> set (d # os_parents pf d)\<rparr>"
  using assms by (auto simp: makedirs_def split: if_splits option.splits)

lemma write_text_effect:
  assumes "write_text pf fs p contents = (e, fs')" and "links fs p = None"
  shows "dirs fs' = dirs fs" and "refused fs' = refused fs" and "links fs' = links fs"
    and "files fs' q \<noteq> files fs q \<Longrightarrow>
           q = p \<and> os_basename pf p \<noteq> [] \<and> os_basename pf p \<noteq> lit ''.'' \<and> os_basename pf p \<noteq> lit ''..''"
    and "e = None \<Longrightarrow> files fs' p = Some contents"
proof -
  from assms(2) have f: "follow max_links (links fs) p = Some p" by (rule follow_no_link)
  from assms(1) show "dirs fs' = dirs fs" and "refused fs' = refused fs" and "links fs' = links fs"
    unfolding write_text_def f by (auto split: if_splits option.splits)
  from assms(1) show "files fs' q \<noteq> files fs q \<Longrightarrow>
      q = p \<and> os_basename pf p \<noteq> [] \<and> os_basename pf p \<noteq> lit ''.'' \<and> os_basename pf p \<noteq> lit ''..''"
    unfolding write_text_def f by (auto split: if_splits option.splits)
  from assms(1) show "e = None \<Longrightarrow> files fs' p = Some contents"
    unfolding write_text_def f by (auto split: if_splits option.splits)
qed

text \<open>
  On the POSIX platform, and when the path of the file in the sandbox directory is not
  that of a symbolic link, \<open>write_file\<close> changes at most that one file, directly inside
  the sandbox directory; the only directories it may create are the sandbox directory
  and those above it.
\<close>

lemma write_file_posix_confined:
  assumes "write_file posix mcp_safe_dir fs path contents = (msg, fs')"
    and "links fs (join_path (sandbox mcp_safe_dir) (basename path)) = None"
  shows "(\<forall>p. files fs' p \<noteq> files fs p \<longrightarrow>
            p = join_path (sandbox mcp_safe_dir) (basename path) \<and> inside (sandbox mcp_safe_dir) p) \<and>
         dirs fs' \<subseteq> dirs fs \<union> set (sandbox mcp_safe_dir # parents (sandbox mcp_safe_dir)) \<and>
         (msg = written_message contents (join_path (sandbox mcp_safe_dir) (basename path)) \<longrightarrow>
            sandbox mcp_safe_dir \<in> dirs fs' \<and>
            files fs' (join_path (sandbox mcp_safe_dir) (basename path)) = Some contents)"
proof (cases "makedirs posix fs (sandbox mcp_safe_dir)")
  case (Raised e)
  have neq: "write_error_message m \<noteq> written_message c q" for m c q
    by (simp add: write_error_message_def written_message_def cross_mark_def check_mark_def)
  from Raised assms(1) have "fs' = fs" "msg = write_error_message (message e)"
    by (simp_all add: write_file_def sandbox_def)
  with neq show ?thesis by auto
next
  case (Returned fs1)
  let ?d = "sandbox mcp_safe_dir"
  let ?p = "join_path ?d (basename path)"
  have px: "os_basename posix = basename" "os_join posix = join_path" "os_parents posix = parents"
    by (simp_all add: posix_def)
  from Returned have d: "?d \<noteq> []" and fs1: "fs1 = fs\<lparr>dirs := dirs fs \<union> set (?d # parents ?d)\<rparr>"
    using makedirs_Returned [of posix fs ?d fs1] by (simp_all add: px)
  from fs1 assms(2) have nl: "links fs1 ?p = None" by simp
  obtain e fs2 where w: "write_text posix fs1 ?p contents = (e, fs2)"
    by (cases "write_text posix fs1 ?p contents")
  have neq: "write_error_message m \<noteq> written_message c q" for m c q
    by (simp add: write_error_message_def written_message_def cross_mark_def check_mark_def)
  from Returned w assms(1) have fs': "fs' = fs2"
    and msg: "msg = (case e of Some x \<Rightarrow> write_error_message (message x) | None \<Rightarrow> written_message contents ?p)"
    by (auto simp: write_file_def sandbox_def px Let_def split: option.splits)
  have "p = ?p \<and> inside ?d p" if "files fs' p \<noteq> files fs p" for p
  proof -
    from that fs' fs1 have "files fs2 p \<noteq> files fs1 p" by simp
    from write_text_effect(4) [OF w nl this]
    have p: "p = ?p" and b: "basename ?p \<noteq> []" "basename ?p \<noteq> lit ''.''" "basename ?p \<noteq> lit ''..''"
      by (simp_all add: px)
    have bj: "basename ?p = basename path" by (rule basename_join [OF d])
    from b have "basename path \<noteq> []" "basename path \<noteq> lit ''.''" "basename path \<noteq> lit ''..''"
      unfolding bj by blast+
    then have "inside ?d ?p"
      unfolding inside_def using d join_basename [OF d, of path] basename_join [OF d, of path]
      by simp
    with p show ?thesis by simp
  qed
  moreover have "dirs fs' \<subseteq> dirs fs \<union> set (?d # parents ?d)"
    using write_text_effect(1) [OF w nl] fs' fs1 by simp
  moreover have "?d \<in> dirs fs' \<and> files fs' ?p = Some contents" if "msg = written_message contents ?p"
  proof -
    from that msg neq have "e = None" by (cases e) auto
    from write_text_effect(5) [OF w nl this] write_text_effect(1) [OF w nl] fs' fs1
    show ?thesis by simp
  qed
  ultimately show ?thesis by blast
qed

lemma parents_default: "parents (lit ''./mcp_workspace'') = [lit ''.'']"
  by (simp add: parents_def slash_def upt_rec)

text \<open>The example of the specification, on an empty disk of a POSIX system.\<close>

lemma write_file_example:
  "files (snd (write_file posix None empty_disk (lit ''../../etc/passwd'') (lit ''root'')))
     = [lit ''./mcp_workspace/passwd'' \<mapsto> lit ''root'']"
  using parents_default follow_no_link [of Map.empty "lit ''./mcp_workspace/passwd''" max_links]
  by (simp add: write_file_def makedirs_def write_text_def empty_disk_def posix_def basename_def
      join_path_def slash_def surrogate_def fsencodable_def Let_def)

text \<open>
  C3: \<open>write_file\<close> is meant never to write outside the sandbox directory, and it
  does.  On a POSIX system, when the sandbox directory holds a symbolic link \<open>passwd\<close>
  to \<open>/etc/passwd\<close>, writing to the path \<open>passwd\<close> replaces the contents of
  \<open>/etc/passwd\<close>.  On Windows, writing to the path \<open>x/C:evil.txt\<close> creates the file
  \<open>C:evil.txt\<close>, which is not in \<open>./mcp_workspace\<close>.
\<close>

theorem write_file_escapes_sandbox:
  "files linked_disk (lit ''/etc/passwd'') = Some (lit ''root'') \<and>
   files (snd (write_file posix None linked_disk (lit ''passwd'') (lit ''pwned''))) (lit ''/etc/passwd'')
     = Some (lit ''pwned'') \<and>
   fst (write_file posix None linked_disk (lit ''passwd'') (lit ''pwned''))
     = written_message (lit ''pwned'') (lit ''./mcp_workspace/passwd'') \<and>
   files (snd (write_file windows_sample None empty_disk (lit ''x/C:evil.txt'') (lit ''x'')))
     = [lit ''C:evil.txt'' \<mapsto> lit ''x''] \<and>
   \<not> prefix (lit ''./mcp_workspace'') (lit ''C:evil.txt'')"
proof -
  have l: "follow max_links (links linked_disk) (lit ''./mcp_workspace/passwd'') = Some (lit ''/etc/passwd'')"
    by (rule follow_one_link) (simp_all add: linked_disk_def)
  have j: "join_path (lit ''./mcp_workspace'') (basename (lit ''passwd'')) = lit ''./mcp_workspace/passwd''"
    by (simp add: basename_def join_path_def slash_def)
  have e: "fsencodable (lit ''./mcp_workspace'')" "fsencodable (lit ''./mcp_workspace/passwd'')"
    by (simp_all add: fsencodable_def surrogate_def)
  have b: "basename (lit ''./mcp_workspace/passwd'') = lit ''passwd''"
    by (simp add: basename_def slash_def)
  have posix_run: "write_file posix None linked_disk (lit ''passwd'') (lit ''pwned'') =
      (written_message (lit ''pwned'') (lit ''./mcp_workspace/passwd''),
       linked_disk\<lparr>dirs := dirs linked_disk \<union> set [lit ''./mcp_workspace'', lit ''.''],
                   files := (files linked_disk)(lit ''/etc/passwd'' \<mapsto> lit ''pwned'')\<rparr>)"
    using l j e b parents_default
    by (simp add: write_file_def makedirs_def write_text_def posix_def linked_disk_def
        surrogate_def Let_def insert_commute)
  have w: "follow max_links (links empty_disk) (lit ''C:evil.txt'') = Some (lit ''C:evil.txt'')"
    by (rule follow_no_link) (simp add: empty_disk_def)
  have windows_run: "files (snd (write_file windows_sample None empty_disk (lit ''x/C:evil.txt'') (lit ''x'')))
     = [lit ''C:evil.txt'' \<mapsto> lit ''x'']"
    using w
    by (simp add: write_file_def makedirs_def write_text_def windows_sample_def empty_disk_def
        surrogate_def Let_def)
  have "files linked_disk (lit ''/etc/passwd'') = Some (lit ''root'')"
    by (simp add: linked_disk_def)
  moreover have "\<not> prefix (lit ''./mcp_workspace'') (lit ''C:evil.txt'')"
    by simp
  ultimately show ?thesis using posix_run windows_run by simp
qed




end
